theory Spec2Isabelle
  imports Complex_Main "HOL-Library.Sublist" "HOL-Library.AList" "HOL-Library.Word"
begin

section \<open>JavaScript string primitives\<close>

text \<open>
  Identifiers, names, paths, messages and terminal data are modelled as \<^typ>\<open>string\<close>, one
  \<^typ>\<open>char\<close> per code unit (code units below 256). Apart from the white-space class of
  the branch-name check and the lower-casing of a file extension, no operation on them looks
  at more than the equality of code units. The content of a file, where the value of every
  code unit matters, has all sixteen bits (see the section on text and bytes).
  \<open>s.startsWith(t)\<close> is \<^term>\<open>prefix t s\<close> and \<open>s.endsWith(t)\<close> is \<^term>\<open>suffix t s\<close>.
\<close>

fun str_includes :: "string \<Rightarrow> string \<Rightarrow> bool" where
  "str_includes [] needle = (needle = [])"
| "str_includes (c # cs) needle = (prefix needle (c # cs) \<or> str_includes cs needle)"

fun split_on :: "char \<Rightarrow> string \<Rightarrow> string list" where
  "split_on d [] = [[]]"
| "split_on d (c # cs) =
     (if c = d then [] # split_on d cs
      else (case split_on d cs of [] \<Rightarrow> [[c]] | w # ws \<Rightarrow> (c # w) # ws))"

definition js_whitespace :: "char \<Rightarrow> bool" where
  \<comment> \<open>the regular expression class \<open>\s\<close>, restricted to code units below 256\<close>
  "js_whitespace c \<longleftrightarrow> of_char c \<in> {9, 10, 11, 12, 13, 32, 160 :: nat}"

section \<open>Branch-name validation\<close>

text \<open>
  The program has two functions called \<open>validateBranchName\<close>: one in the git service, used
  by its branch operations, and one in the worktree service, used by its worktree operations.
  They share every check but two: the worktree one refuses any slash, the git one splits the
  name at its slashes and refuses an empty segment and a segment that starts or ends with a
  dot.
\<close>

definition invalid_branch_char :: "char \<Rightarrow> bool" where
  \<comment> \<open>the character class \<open>[~^:\\\*\[\]\s]\<close>\<close>
  "invalid_branch_char c \<longleftrightarrow>
     c \<in> {CHR ''~'', CHR ''^'', CHR '':'', CHR 0x5C, CHR ''*'', CHR ''['', CHR '']''} \<or> js_whitespace c"

definition segment_ok :: "string \<Rightarrow> bool" where
  "segment_ok seg \<longleftrightarrow> seg \<noteq> [] \<and> \<not> prefix ''.'' seg \<and> \<not> suffix ''.'' seg"

definition validateBranchName :: "string \<Rightarrow> bool" where
  \<comment> \<open>\<open>validateBranchName\<close> of the git service\<close>
  "validateBranchName branch =
     (if branch = [] then False
      else if str_includes branch ''..'' \<or> str_includes branch [CHR 0x5C] then False
      else if list_ex invalid_branch_char branch then False
      else if prefix ''-'' branch then False
      else if branch = ''@'' \<or> str_includes branch [CHR ''@'', CHR ''{''] then False
      else list_all segment_ok (split_on CHR ''/'' branch))"

definition validateBranchName_worktree :: "string \<Rightarrow> bool" where
  \<comment> \<open>\<open>validateBranchName\<close> of the worktree service\<close>
  "validateBranchName_worktree branch =
     (if branch = [] then False
      else if str_includes branch ''..'' \<or> str_includes branch ''/'' \<or> str_includes branch [CHR 0x5C] then False
      else if list_ex invalid_branch_char branch then False
      else if prefix ''-'' branch then False
      else if branch = ''@'' \<or> str_includes branch [CHR ''@'', CHR ''{''] then False
      else True)"

section \<open>Replay buffer\<close>

definition REPLAY_BUFFER_SIZE :: nat where
  "REPLAY_BUFFER_SIZE = 128 * 1024"

definition slice_last :: "nat \<Rightarrow> 'a list \<Rightarrow> 'a list" where
  \<comment> \<open>\<open>s.slice(-n)\<close>: the start index is \<open>max (length s - n) 0\<close>; \<open>-0\<close> is \<open>0\<close>\<close>
  "slice_last n s = (if n = 0 then s else drop (length s - n) s)"

definition append_output :: "'a list \<Rightarrow> 'a list \<Rightarrow> 'a list" where
  \<comment> \<open>the buffer part of the PTY data handler\<close>
  "append_output outputBuffer chunk =
     (let b = outputBuffer @ chunk
      in if length b > REPLAY_BUFFER_SIZE then slice_last REPLAY_BUFFER_SIZE b else b)"


section \<open>Configuration and environment\<close>

text \<open>
  The configuration record is read once at start-up. Its schema coerces each numeric setting
  with \<open>Number\<close> and asks for nothing more, so a setting is any number but \<open>NaN\<close>: a whole
  number, a fraction, a negative number or an infinity. A finite number is held as its exact
  value, a rational; arithmetic on it is exact, as it is in the program on whole numbers of
  ordinary size.
\<close>

datatype number = Num rat | PosInfinity | NegInfinity

fun number_le :: "number \<Rightarrow> rat \<Rightarrow> bool" where
  \<comment> \<open>\<open>x >= a\<close> for a setting \<open>a\<close> and a finite \<open>x\<close>\<close>
  "number_le (Num q) x = (q \<le> x)"
| "number_le PosInfinity x = False"
| "number_le NegInfinity x = True"

fun number_less :: "number \<Rightarrow> rat \<Rightarrow> bool" where
  \<comment> \<open>\<open>x > a\<close> for a setting \<open>a\<close> and a finite \<open>x\<close>\<close>
  "number_less (Num q) x = (q < x)"
| "number_less PosInfinity x = False"
| "number_less NegInfinity x = True"

fun number_times :: "number \<Rightarrow> rat \<Rightarrow> number" where
  \<comment> \<open>\<open>a * k\<close> for a positive finite \<open>k\<close>\<close>
  "number_times (Num q) k = Num (q * k)"
| "number_times PosInfinity k = PosInfinity"
| "number_times NegInfinity k = NegInfinity"

record config =
  MAX_SESSIONS_PER_USER :: number
  MAX_TOTAL_SESSIONS :: number
  DISCONNECTED_TTL_MINUTES :: number
  MAX_FILE_SIZE_BYTES :: number
  CLAUDE_PATH :: string

datatype js_error = Error (message: string)

datatype spawn_result = SpawnOk | SpawnThrows js_error

text \<open>
  What an operation draws from outside the manager: the clock (\<open>new Date()\<close>,
  \<open>Date.now()\<close>, in milliseconds), the identifier produced by \<open>generateSessionId\<close>
  (time stamp and random suffix), and whether \<open>pty.spawn\<close> returns or throws.
\<close>

record env =
  env_now :: nat
  env_id :: string
  env_spawn :: spawn_result

definition digit_char :: "nat \<Rightarrow> char" where
  "digit_char d =
     (if d = 0 then CHR ''0'' else if d = 1 then CHR ''1'' else if d = 2 then CHR ''2''
      else if d = 3 then CHR ''3'' else if d = 4 then CHR ''4'' else if d = 5 then CHR ''5''
      else if d = 6 then CHR ''6'' else if d = 7 then CHR ''7'' else if d = 8 then CHR ''8''
      else CHR ''9'')"

function show_nat :: "nat \<Rightarrow> string" where
  \<comment> \<open>a count as it appears inside a template string: decimal digits\<close>
  "show_nat n = (if n < 10 then [digit_char n] else show_nat (n div 10) @ [digit_char (n mod 10)])"
  by pat_completeness auto
termination
  by (relation "measure id") auto

declare show_nat.simps [simp del]

definition show_int :: "int \<Rightarrow> string" where
  "show_int i = (if i < 0 then ''-'' @ show_nat (nat (- i)) else show_nat (nat i))"

fun frac_digits :: "nat \<Rightarrow> rat \<Rightarrow> string" where
  \<comment> \<open>the decimal digits of a fraction between 0 and 1, at most \<open>n\<close> of them\<close>
  "frac_digits 0 q = []"
| "frac_digits (Suc n) q =
     (if q = 0 then []
      else digit_char (nat \<lfloor>q * 10\<rfloor>) # frac_digits n (q * 10 - of_int \<lfloor>q * 10\<rfloor>))"

definition show_number :: "number \<Rightarrow> string" where
  \<comment> \<open>a setting as it appears inside a template string. A whole number is its decimal
      digits and a decimal fraction is its digits around the point, which is the text the
      program makes for whole numbers below \<open>10^21\<close> and for fractions of at most fifteen
      digits that are not below \<open>10^-6\<close>, such as \<open>2.5\<close>; the texts of other numbers
      (exponent notation, the shortest digits that read back) are not modelled, and no
      statement depends on them\<close>
  "show_number a =
     (case a of
        PosInfinity \<Rightarrow> ''Infinity''
      | NegInfinity \<Rightarrow> ''-Infinity''
      | Num q \<Rightarrow>
          if of_int \<lfloor>q\<rfloor> = q then show_int \<lfloor>q\<rfloor>
          else (if q < 0 then ''-'' else []) @ show_nat (nat \<lfloor>\<bar>q\<bar>\<rfloor>) @ ''.''
               @ frac_digits 20 (\<bar>q\<bar> - of_int \<lfloor>\<bar>q\<bar>\<rfloor>))"

section \<open>Session manager: data\<close>

datatype session_state = Starting | Running | Exited

record ClaudeSession =
  id :: string
  userEmail :: string
  repoId :: string
  repoPath :: string
  name :: string
  state :: session_state
  createdAt :: nat
  lastActivityAt :: nat
  exitCode :: "int option"

text \<open>
  Server frames. A status frame carries the state and the optional fields \<open>message\<close>,
  \<open>sessionId\<close> and \<open>sessionName\<close>.
\<close>

datatype ServerMessage =
    Output string
  | Status session_state "string option" "string option" "string option"
  | Pong
  | Replay string
  | ErrorMsg string

text \<open>
  A client object is created once per socket and is identified by its \<open>id\<close>; the client
  set of an entry is the list of these ids in insertion order, without repetition.
  PTY and timer handles are numbers handed out in order.
\<close>

record SessionEntry =
  session :: ClaudeSession
  pty :: "nat option"
  outputBuffer :: string
  clients :: "string list"
  disconnectedAt :: "nat option"
  cleanupTimeout :: "nat option"

record spawn_req =
  sp_file :: string
  sp_args :: "string list"
  sp_term :: string
  sp_cols :: rat
  sp_rows :: rat
  sp_cwd :: string

text \<open>
  The manager: the two maps of the class (association lists in insertion order, as a
  \<open>Map\<close> iterates), and the record of its effects on the outside: PTYs spawned (handle,
  owning session id, request), PTYs killed, data written and sizes set on PTYs, the pending
  one-shot timers (handle, due time, session id), and every \<open>client.send\<close> call
  (client id, frame), oldest first.
\<close>

record manager =
  sessions :: "(string \<times> SessionEntry) list"
  userRepoSessions :: "(string \<times> string list) list"
  spawned :: "(nat \<times> string \<times> spawn_req) list"
  killed :: "nat list"
  pty_written :: "(nat \<times> string) list"
  pty_resized :: "(nat \<times> rat \<times> rat) list"
  timers :: "(nat \<times> nat \<times> string) list"
  timer_seq :: nat
  outbox :: "(string \<times> ServerMessage) list"

definition init_manager :: manager where
  "init_manager = \<lparr> sessions = [], userRepoSessions = [], spawned = [], killed = [],
     pty_written = [], pty_resized = [], timers = [], timer_seq = 0, outbox = [] \<rparr>"

section \<open>Session manager: operations\<close>

definition getUserRepoKey :: "string \<Rightarrow> string \<Rightarrow> string" where
  "getUserRepoKey email repo = email @ '':'' @ repo"

definition generateTabName :: "string \<Rightarrow> string list \<Rightarrow> string" where
  "generateTabName repo existingSessions = ''Session '' @ show_nat (length existingSessions + 1)"

definition getUserSessionCount :: "manager \<Rightarrow> string \<Rightarrow> nat" where
  "getUserSessionCount m email =
     length (filter (\<lambda>(k, e). userEmail (session e) = email) (sessions m))"

definition set_add :: "'a \<Rightarrow> 'a list \<Rightarrow> 'a list" where
  \<comment> \<open>\<open>Set.add\<close>\<close>
  "set_add x xs = (if x \<in> set xs then xs else xs @ [x])"

definition send_all :: "string list \<Rightarrow> ServerMessage \<Rightarrow> manager \<Rightarrow> manager" where
  \<comment> \<open>\<open>for (const client of entry.clients) client.send(message)\<close>\<close>
  "send_all cs msg m = m\<lparr> outbox := outbox m @ map (\<lambda>c. (c, msg)) cs \<rparr>"

definition spawnClaude ::
  "config \<Rightarrow> env \<Rightarrow> rat option \<Rightarrow> rat option \<Rightarrow> SessionEntry \<Rightarrow> manager
     \<Rightarrow> js_error option \<times> SessionEntry \<times> manager" where
  "spawnClaude cfg ev cols rows entry m =
     (let c = (case cols of None \<Rightarrow> 120 | Some v \<Rightarrow> v);
          r = (case rows of None \<Rightarrow> 30 | Some v \<Rightarrow> v)
      in case env_spawn ev of
           SpawnOk \<Rightarrow>
             (let h = length (spawned m);
                  req = \<lparr> sp_file = ''/bin/bash'', sp_args = [''-c'', ''exec '' @ CLAUDE_PATH cfg],
                          sp_term = ''xterm-256color'', sp_cols = c, sp_rows = r,
                          sp_cwd = repoPath (session entry) \<rparr>;
                  m1 = m\<lparr> spawned := spawned m @ [(h, id (session entry), req)] \<rparr>;
                  entry1 = entry\<lparr> pty := Some h, session := (session entry)\<lparr> state := Running \<rparr> \<rparr>
              in (None, entry1, send_all (clients entry1) (Status Running None None None) m1))
         | SpawnThrows e \<Rightarrow>
             (Some e, entry\<lparr> session := (session entry)\<lparr> state := Exited, exitCode := Some 1 \<rparr> \<rparr>, m))"

definition put_entry :: "string \<Rightarrow> SessionEntry \<Rightarrow> manager \<Rightarrow> manager" where
  "put_entry sid entry m = m\<lparr> sessions := AList.update sid entry (sessions m) \<rparr>"

definition new_session ::
  "env \<Rightarrow> manager \<Rightarrow> string \<Rightarrow> string \<Rightarrow> string \<Rightarrow> string option \<Rightarrow> ClaudeSession" where
  \<comment> \<open>the session object literal, with the tab name \<open>name || generateTabName(\<dots>)\<close>\<close>
  "new_session ev m email repo path nm =
     (let existingSessionIds =
            (case map_of (userRepoSessions m) (getUserRepoKey email repo) of None \<Rightarrow> [] | Some s \<Rightarrow> s);
          tabName = (case nm of None \<Rightarrow> generateTabName repo existingSessionIds
                     | Some n \<Rightarrow> if n = [] then generateTabName repo existingSessionIds else n)
      in \<lparr> id = env_id ev, userEmail = email, repoId = repo, repoPath = path, name = tabName,
           state = Starting, createdAt = env_now ev, lastActivityAt = env_now ev, exitCode = None \<rparr>)"

definition new_entry :: "ClaudeSession \<Rightarrow> SessionEntry" where
  "new_entry s = \<lparr> session = s, pty = None, outputBuffer = [], clients = [],
                   disconnectedAt = None, cleanupTimeout = None \<rparr>"

definition track_session :: "string \<Rightarrow> string \<Rightarrow> manager \<Rightarrow> manager" where
  \<comment> \<open>adds the session id to the set kept under the user/repo key, creating the set if absent\<close>
  "track_session userRepoKey sessionId m =
     m\<lparr> userRepoSessions :=
          AList.update userRepoKey
            (set_add sessionId (case map_of (userRepoSessions m) userRepoKey of None \<Rightarrow> [] | Some s \<Rightarrow> s))
            (userRepoSessions m) \<rparr>"

definition createSession ::
  "config \<Rightarrow> env \<Rightarrow> manager \<Rightarrow> string \<Rightarrow> string \<Rightarrow> string \<Rightarrow> string option \<Rightarrow> rat option \<Rightarrow> rat option
     \<Rightarrow> (js_error + ClaudeSession) \<times> manager" where
  "createSession cfg ev m email repo path nm cols rows =
     (if number_le (MAX_SESSIONS_PER_USER cfg) (of_nat (getUserSessionCount m email)) then
        (Inl (Error (''Maximum sessions per user reached ('' @ show_number (MAX_SESSIONS_PER_USER cfg) @ '')'')), m)
      else if number_le (MAX_TOTAL_SESSIONS cfg) (of_nat (length (sessions m))) then
        (Inl (Error ''Server at maximum capacity''), m)
      else
        (let sessionId = env_id ev;
             entry = new_entry (new_session ev m email repo path nm);
             m1 = put_entry sessionId entry m;
             m2 = track_session (getUserRepoKey email repo) sessionId m1
         in case spawnClaude cfg ev cols rows entry m2 of
              (Some e, entry', m3) \<Rightarrow> (Inl e, put_entry sessionId entry' m3)
            | (None, entry', m3) \<Rightarrow> (Inr (session entry'), put_entry sessionId entry' m3)))"

definition getSession :: "manager \<Rightarrow> string \<Rightarrow> ClaudeSession option" where
  "getSession m sid = map_option session (map_of (sessions m) sid)"

record TabInfo =
  tab_id :: string
  tab_name :: string
  tab_state :: session_state
  tab_createdAt :: nat

definition listSessions :: "manager \<Rightarrow> string \<Rightarrow> string \<Rightarrow> TabInfo list" where
  "listSessions m email repo =
     (case map_of (userRepoSessions m) (getUserRepoKey email repo) of
        None \<Rightarrow> []
      | Some sessionIds \<Rightarrow>
          sort_key tab_createdAt
            (concat (map (\<lambda>sid. case map_of (sessions m) sid of
                                  None \<Rightarrow> []
                                | Some e \<Rightarrow> [\<lparr> tab_id = id (session e), tab_name = name (session e),
                                               tab_state = state (session e),
                                               tab_createdAt = createdAt (session e) \<rparr>]) sessionIds)))"

definition renameSession :: "manager \<Rightarrow> string \<Rightarrow> string \<Rightarrow> bool \<times> manager" where
  "renameSession m sid newName =
     (case map_of (sessions m) sid of
        None \<Rightarrow> (False, m)
      | Some entry \<Rightarrow> (True, put_entry sid (entry\<lparr> session := (session entry)\<lparr> name := newName \<rparr> \<rparr>) m))"

definition clearTimeout :: "nat \<Rightarrow> manager \<Rightarrow> manager" where
  "clearTimeout h m = m\<lparr> timers := filter (\<lambda>(h', due, sid). h' \<noteq> h) (timers m) \<rparr>"

definition timeout_after :: "number \<Rightarrow> nat" where
  \<comment> \<open>the delay the runtime gives a timer, in whole milliseconds: a delay that is not from 1
      to \<open>2^31 - 1\<close> becomes 1, a fraction is cut off\<close>
  "timeout_after delay =
     (case delay of
        Num q \<Rightarrow> if 1 \<le> q \<and> q \<le> 2147483647 then nat \<lfloor>q\<rfloor> else 1
      | _ \<Rightarrow> 1)"

definition setTimeout :: "nat \<Rightarrow> number \<Rightarrow> string \<Rightarrow> manager \<Rightarrow> nat \<times> manager" where
  \<comment> \<open>arms the one-shot timer that calls \<open>cleanupSession(sessionId)\<close>; the timer is recorded
      with the time at which it is due\<close>
  "setTimeout now delay sid m =
     (timer_seq m, m\<lparr> timers := timers m @ [(timer_seq m, now + timeout_after delay, sid)],
                        timer_seq := Suc (timer_seq m) \<rparr>)"

definition ttlMs :: "config \<Rightarrow> number" where
  \<comment> \<open>\<open>config.DISCONNECTED_TTL_MINUTES * 60 * 1000\<close>\<close>
  "ttlMs cfg = number_times (number_times (DISCONNECTED_TTL_MINUTES cfg) 60) 1000"

definition attachClient ::
  "env \<Rightarrow> manager \<Rightarrow> string \<Rightarrow> string \<Rightarrow> (ClaudeSession \<times> string) option \<times> manager" where
  "attachClient ev m sid client =
     (case map_of (sessions m) sid of
        None \<Rightarrow> (None, m)
      | Some entry \<Rightarrow>
          (let m1 = (case cleanupTimeout entry of None \<Rightarrow> m | Some h \<Rightarrow> clearTimeout h m);
               entry1 = entry\<lparr> cleanupTimeout := None, disconnectedAt := None,
                               clients := set_add client (clients entry),
                               session := (session entry)\<lparr> lastActivityAt := env_now ev \<rparr> \<rparr>
           in (Some (session entry1, outputBuffer entry1), put_entry sid entry1 m1)))"

definition detachClient :: "config \<Rightarrow> env \<Rightarrow> manager \<Rightarrow> string \<Rightarrow> string \<Rightarrow> manager" where
  "detachClient cfg ev m sid clientId =
     (case map_of (sessions m) sid of
        None \<Rightarrow> m
      | Some entry \<Rightarrow>
          (let entry1 = entry\<lparr> clients := remove1 clientId (clients entry) \<rparr>
           in if clients entry1 = [] then
                (let (h, m1) = setTimeout (env_now ev) (ttlMs cfg) sid m
                 in put_entry sid (entry1\<lparr> disconnectedAt := Some (env_now ev), cleanupTimeout := Some h \<rparr>) m1)
              else put_entry sid entry1 m))"

definition sendInput :: "env \<Rightarrow> manager \<Rightarrow> string \<Rightarrow> string \<Rightarrow> bool \<times> manager" where
  "sendInput ev m sid data =
     (case map_of (sessions m) sid of
        None \<Rightarrow> (False, m)
      | Some entry \<Rightarrow>
          (case pty entry of
             None \<Rightarrow> (False, m)
           | Some p \<Rightarrow>
               (True, put_entry sid (entry\<lparr> session := (session entry)\<lparr> lastActivityAt := env_now ev \<rparr> \<rparr>)
                        (m\<lparr> pty_written := pty_written m @ [(p, data)] \<rparr>))))"

definition resize :: "manager \<Rightarrow> string \<Rightarrow> rat \<Rightarrow> rat \<Rightarrow> bool \<times> manager" where
  "resize m sid cols rows =
     (case map_of (sessions m) sid of
        None \<Rightarrow> (False, m)
      | Some entry \<Rightarrow>
          (case pty entry of
             None \<Rightarrow> (False, m)
           | Some p \<Rightarrow> (True, m\<lparr> pty_resized := pty_resized m @ [(p, cols, rows)] \<rparr>)))"

definition restartSession ::
  "config \<Rightarrow> env \<Rightarrow> manager \<Rightarrow> string \<Rightarrow> (js_error + ClaudeSession option) \<times> manager" where
  "restartSession cfg ev m sid =
     (case map_of (sessions m) sid of
        None \<Rightarrow> (Inr None, m)
      | Some entry \<Rightarrow>
          (let m1 = (case pty entry of None \<Rightarrow> m | Some p \<Rightarrow> m\<lparr> killed := killed m @ [p] \<rparr>);
               entry1 = entry\<lparr> pty := None, outputBuffer := [] \<rparr>
           in case spawnClaude cfg ev None None entry1 m1 of
                (Some e, entry', m2) \<Rightarrow> (Inl e, put_entry sid entry' m2)
              | (None, entry', m2) \<Rightarrow> (Inr (Some (session entry')), put_entry sid entry' m2)))"

definition cleanupSession :: "manager \<Rightarrow> string \<Rightarrow> bool \<times> manager" where
  "cleanupSession m sid =
     (case map_of (sessions m) sid of
        None \<Rightarrow> (False, m)
      | Some entry \<Rightarrow>
          (let m1 = (case pty entry of None \<Rightarrow> m | Some p \<Rightarrow> m\<lparr> killed := killed m @ [p] \<rparr>);
               m2 = (case cleanupTimeout entry of None \<Rightarrow> m1 | Some h \<Rightarrow> clearTimeout h m1);
               m3 = send_all (clients entry) (Status Exited (Some ''Session terminated'') None None) m2;
               userRepoKey = getUserRepoKey (userEmail (session entry)) (repoId (session entry));
               m4 = (case map_of (userRepoSessions m3) userRepoKey of
                       None \<Rightarrow> m3
                     | Some userSessions \<Rightarrow>
                         (let us = removeAll sid userSessions
                          in if us = [] then m3\<lparr> userRepoSessions := AList.delete userRepoKey (userRepoSessions m3) \<rparr>
                             else m3\<lparr> userRepoSessions := AList.update userRepoKey us (userRepoSessions m3) \<rparr>))
           in (True, m4\<lparr> sessions := AList.delete sid (sessions m4) \<rparr>)))"

definition terminateSession :: "manager \<Rightarrow> string \<Rightarrow> bool \<times> manager" where
  "terminateSession m sid = cleanupSession m sid"

definition expired :: "config \<Rightarrow> env \<Rightarrow> SessionEntry \<Rightarrow> bool" where
  \<comment> \<open>\<open>entry.disconnectedAt && now - entry.disconnectedAt.getTime() > ttlMs\<close>\<close>
  "expired cfg ev entry =
     (case disconnectedAt entry of
        None \<Rightarrow> False
      | Some d \<Rightarrow> number_less (ttlMs cfg) (of_nat (env_now ev) - of_nat d))"

definition sweep :: "(SessionEntry \<Rightarrow> bool) \<Rightarrow> manager \<Rightarrow> string list \<Rightarrow> manager" where
  \<comment> \<open>the loop over the entries of the map: an entry still in the map when its turn comes
      is cleaned up if the test holds of it\<close>
  "sweep test m sids =
     foldl (\<lambda>acc sid. case map_of (sessions acc) sid of
                         None \<Rightarrow> acc
                       | Some entry \<Rightarrow> if test entry then snd (cleanupSession acc sid) else acc)
       m sids"

definition cleanupExpiredSessions :: "config \<Rightarrow> env \<Rightarrow> manager \<Rightarrow> manager" where
  "cleanupExpiredSessions cfg ev m = sweep (expired cfg ev) m (map fst (sessions m))"

definition getUserSessions :: "manager \<Rightarrow> string \<Rightarrow> ClaudeSession list" where
  "getUserSessions m email =
     map (\<lambda>(k, e). session e) (filter (\<lambda>(k, e). userEmail (session e) = email) (sessions m))"

subsection \<open>Handlers registered on a PTY and on a timer\<close>

text \<open>
  The handlers close over the entry that spawned the PTY; while the entry is in the map it
  is found again through the owning session id recorded at spawn time. The handlers of every
  PTY the entry has had stay registered, also those of a PTY that \<open>restartSession\<close> has
  killed. Once \<open>cleanupSession\<close> has taken the entry out of the map, a late event of one of
  its PTYs still changes the entry and is still sent to the clients the entry lists, but
  nothing the manager holds shows the entry any more; the model follows an entry for as long
  as it is in the map and takes such a late event as no step.
\<close>

definition pty_owner :: "manager \<Rightarrow> nat \<Rightarrow> string option" where
  "pty_owner m p = map_option fst (map_of (spawned m) p)"

definition pty_onData :: "env \<Rightarrow> manager \<Rightarrow> nat \<Rightarrow> string \<Rightarrow> manager" where
  "pty_onData ev m p data =
     (case pty_owner m p of
        None \<Rightarrow> m
      | Some sid \<Rightarrow>
          (case map_of (sessions m) sid of
             None \<Rightarrow> m
           | Some entry \<Rightarrow>
               (let entry1 = entry\<lparr> outputBuffer := append_output (outputBuffer entry) data \<rparr>;
                    m1 = send_all (clients entry1) (Output data) m
                in put_entry sid (entry1\<lparr> session := (session entry1)\<lparr> lastActivityAt := env_now ev \<rparr> \<rparr>) m1)))"

definition exit_message :: "int \<Rightarrow> nat option \<Rightarrow> string" where
  "exit_message code signal =
     ''Claude exited with code '' @ show_int code @
       (case signal of None \<Rightarrow> [] | Some s \<Rightarrow> if s = 0 then [] else '' (signal: '' @ show_nat s @ '')'')"

definition pty_onExit :: "manager \<Rightarrow> nat \<Rightarrow> int \<Rightarrow> nat option \<Rightarrow> manager" where
  "pty_onExit m p code signal =
     (case pty_owner m p of
        None \<Rightarrow> m
      | Some sid \<Rightarrow>
          (case map_of (sessions m) sid of
             None \<Rightarrow> m
           | Some entry \<Rightarrow>
               (let entry1 = entry\<lparr> pty := None,
                                    session := (session entry)\<lparr> state := Exited, exitCode := Some code \<rparr> \<rparr>
                in send_all (clients entry1) (Status Exited (Some (exit_message code signal)) None None)
                     (put_entry sid entry1 m))))"

definition timer_fire :: "manager \<Rightarrow> nat \<Rightarrow> manager" where
  "timer_fire m h =
     (case map_of (timers m) h of
        None \<Rightarrow> m
      | Some (due, sid) \<Rightarrow> snd (cleanupSession (clearTimeout h m) sid))"


subsection \<open>Everything that can happen to a manager\<close>

datatype event =
    EvCreate env string string string "string option" "rat option" "rat option"
  | EvAttach env string string
  | EvDetach env string string
  | EvInput env string string
  | EvResize string rat rat
  | EvRestart env string
  | EvTerminate string
  | EvRename string string
  | EvSweep env
  | EvPtyData env nat string
  | EvPtyExit nat int "nat option"
  | EvTimer nat

fun step :: "config \<Rightarrow> manager \<Rightarrow> event \<Rightarrow> manager" where
  "step cfg m (EvCreate ev email repo path nm cols rows) = snd (createSession cfg ev m email repo path nm cols rows)"
| "step cfg m (EvAttach ev sid client) = snd (attachClient ev m sid client)"
| "step cfg m (EvDetach ev sid client) = detachClient cfg ev m sid client"
| "step cfg m (EvInput ev sid data) = snd (sendInput ev m sid data)"
| "step cfg m (EvResize sid cols rows) = snd (resize m sid cols rows)"
| "step cfg m (EvRestart ev sid) = snd (restartSession cfg ev m sid)"
| "step cfg m (EvTerminate sid) = snd (terminateSession m sid)"
| "step cfg m (EvRename sid nm) = snd (renameSession m sid nm)"
| "step cfg m (EvSweep ev) = cleanupExpiredSessions cfg ev m"
| "step cfg m (EvPtyData ev p data) = pty_onData ev m p data"
| "step cfg m (EvPtyExit p code signal) = pty_onExit m p code signal"
| "step cfg m (EvTimer h) = timer_fire m h"

definition run :: "config \<Rightarrow> event list \<Rightarrow> manager" where
  "run cfg evs = foldl (step cfg) init_manager evs"

section \<open>HTTP: creating a session\<close>

text \<open>
  The handler of \<open>POST /api/sessions\<close>, from the point where the body has passed its
  schema and the repository id has been resolved to a path.
\<close>

datatype http_reply =
    Created string string session_state nat
  | Failure nat string string string
  | Rethrown js_error

definition post_sessions ::
  "config \<Rightarrow> env \<Rightarrow> manager \<Rightarrow> string \<Rightarrow> string \<Rightarrow> string \<Rightarrow> string option \<Rightarrow> http_reply \<times> manager" where
  "post_sessions cfg ev m email repo path nm =
     (case createSession cfg ev m email repo path nm None None of
        (Inr s, m') \<Rightarrow> (Created (id s) (name s) (state s) (createdAt s), m')
      | (Inl e, m') \<Rightarrow>
          (if str_includes (message e) ''Maximum sessions per user reached'' then
             (Failure 429 ''Session Limit Reached'' (message e) ''MAX_SESSIONS_PER_USER'', m')
           else if str_includes (message e) ''Server at maximum capacity'' then
             (Failure 503 ''Server Busy'' (message e) ''SERVER_MAX_CAPACITY'', m')
           else (Rethrown e, m')))"

subsection \<open>Comparing the session maps of two managers\<close>

definition sessions_le :: "manager \<Rightarrow> manager \<Rightarrow> bool" where
  "sessions_le m' m \<longleftrightarrow> length (sessions m') \<le> length (sessions m)
      \<and> (\<forall>u. getUserSessionCount m' u \<le> getUserSessionCount m u)"

definition admits :: "config \<Rightarrow> manager \<Rightarrow> string \<Rightarrow> bool" where
  \<comment> \<open>neither check of \<open>createSession\<close> throws\<close>
  "admits cfg m email \<longleftrightarrow>
     \<not> number_le (MAX_SESSIONS_PER_USER cfg) (of_nat (getUserSessionCount m email))
     \<and> \<not> number_le (MAX_TOTAL_SESSIONS cfg) (of_nat (length (sessions m)))"

definition within_cap :: "nat \<Rightarrow> number \<Rightarrow> bool" where
  \<comment> \<open>the count is zero, or one more than a count that is below the cap\<close>
  "within_cap n cap \<longleftrightarrow> n = 0 \<or> \<not> number_le cap (of_nat (n - 1))"

definition cap_ok :: "config \<Rightarrow> manager \<Rightarrow> bool" where
  "cap_ok cfg m \<longleftrightarrow> within_cap (length (sessions m)) (MAX_TOTAL_SESSIONS cfg)
      \<and> (\<forall>u. within_cap (getUserSessionCount m u) (MAX_SESSIONS_PER_USER cfg))"

subsection \<open>Concrete configurations and states used in the examples\<close>

definition cfg_default :: config where
  "cfg_default = \<lparr> MAX_SESSIONS_PER_USER = Num 3, MAX_TOTAL_SESSIONS = Num 20,
     DISCONNECTED_TTL_MINUTES = Num 20, MAX_FILE_SIZE_BYTES = Num 2000000, CLAUDE_PATH = ''claude'' \<rparr>"

definition cfg_one :: config where
  \<comment> \<open>both caps set to one\<close>
  "cfg_one = cfg_default\<lparr> MAX_SESSIONS_PER_USER := Num 1, MAX_TOTAL_SESSIONS := Num 1 \<rparr>"

definition cfg_fraction :: config where
  \<comment> \<open>\<open>MAX_SESSIONS_PER_USER=2.5\<close> in the environment\<close>
  "cfg_fraction = cfg_default\<lparr> MAX_SESSIONS_PER_USER := Num (5 / 2) \<rparr>"

definition env_at :: "nat \<Rightarrow> string \<Rightarrow> env" where
  "env_at t sid = \<lparr> env_now = t, env_id = sid, env_spawn = SpawnOk \<rparr>"

definition m_one :: manager where
  \<comment> \<open>one session of \<open>u@x\<close> on \<open>r/demo\<close>, created at size 80 by 24\<close>
  "m_one = snd (createSession cfg_default (env_at 1000 ''s1'') init_manager
                  ''u@x'' ''r/demo'' ''/r/demo'' None (Some 80) (Some 24))"

definition m_attached :: manager where
  \<comment> \<open>the same with client \<open>c1\<close> attached\<close>
  "m_attached = snd (attachClient (env_at 2000 ''-'') m_one ''s1'' ''c1'')"

definition spawn_sizes :: "manager \<Rightarrow> (rat \<times> rat) list" where
  "spawn_sizes m = map (\<lambda>(h, sid, r). (sp_cols r, sp_rows r)) (spawned m)"

definition returned_state :: "(js_error + ClaudeSession) \<Rightarrow> session_state option" where
  "returned_state r = (case r of Inl e \<Rightarrow> None | Inr s \<Rightarrow> Some (state s))"

definition session_state_of :: "manager \<Rightarrow> string \<Rightarrow> session_state option" where
  "session_state_of m sid = map_option state (getSession m sid)"

definition default_spawn_req :: "config \<Rightarrow> string \<Rightarrow> spawn_req" where
  \<comment> \<open>the request \<open>spawnClaude\<close> makes when it is called without a size\<close>
  "default_spawn_req cfg cwd =
     \<lparr> sp_file = ''/bin/bash'', sp_args = [''-c'', ''exec '' @ CLAUDE_PATH cfg],
       sp_term = ''xterm-256color'', sp_cols = 120, sp_rows = 30, sp_cwd = cwd \<rparr>"

lemmas manager_defs =
  createSession_def new_entry_def new_session_def put_entry_def track_session_def spawnClaude_def
  send_all_def set_add_def getUserRepoKey_def generateTabName_def getUserSessionCount_def
  attachClient_def detachClient_def restartSession_def cleanupSession_def getSession_def
  setTimeout_def timeout_after_def ttlMs_def clearTimeout_def pty_onExit_def pty_onData_def pty_owner_def timer_fire_def
  init_manager_def env_at_def cfg_default_def

definition no_new_running :: "manager \<Rightarrow> manager \<Rightarrow> bool" where
  "no_new_running m' m \<longleftrightarrow>
     (\<forall>sid. session_state_of m' sid = Some Running \<longrightarrow> session_state_of m sid = Some Running)"

fun spawning_event :: "event \<Rightarrow> string \<Rightarrow> bool" where
  \<comment> \<open>the event is a call of \<open>spawnClaude\<close> for this session in which \<open>pty.spawn\<close> returns\<close>
  "spawning_event (EvCreate ev email repo path nm cols rows) sid = (env_spawn ev = SpawnOk \<and> env_id ev = sid)"
| "spawning_event (EvRestart ev sid') sid = (env_spawn ev = SpawnOk \<and> sid' = sid)"
| "spawning_event e sid = False"

definition env_fail :: "nat \<Rightarrow> string \<Rightarrow> env" where
  \<comment> \<open>an environment in which \<open>pty.spawn\<close> throws\<close>
  "env_fail t sid = \<lparr> env_now = t, env_id = sid, env_spawn = SpawnThrows (Error ''spawn failed'') \<rparr>"

subsection \<open>What the PTYs of a session have emitted\<close>

text \<open>
  The output of a session so far: every chunk that the data handler of one of its PTYs has
  been given since the session was created or last restarted, in the order of arrival. The
  manager does not hold it; it is kept beside the manager to say what the replay buffer is a
  part of.
\<close>

fun emitted_step :: "config \<Rightarrow> manager \<Rightarrow> (string \<Rightarrow> string) \<Rightarrow> event \<Rightarrow> (string \<Rightarrow> string)" where
  "emitted_step cfg m out (EvCreate ev email repo path nm cols rows) =
     (if admits cfg m email then out(env_id ev := []) else out)"
| "emitted_step cfg m out (EvRestart ev sid) =
     (case map_of (sessions m) sid of None \<Rightarrow> out | Some entry \<Rightarrow> out(sid := []))"
| "emitted_step cfg m out (EvPtyData ev p data) =
     (case pty_owner m p of None \<Rightarrow> out | Some sid \<Rightarrow> out(sid := out sid @ data))"
| "emitted_step cfg m out e = out"

definition run_emitted :: "config \<Rightarrow> event list \<Rightarrow> manager \<times> (string \<Rightarrow> string)" where
  "run_emitted cfg evs =
     foldl (\<lambda>(m, out) e. (step cfg m e, emitted_step cfg m out e)) (init_manager, \<lambda>sid. []) evs"

definition emitted :: "config \<Rightarrow> event list \<Rightarrow> string \<Rightarrow> string" where
  "emitted cfg evs sid = snd (run_emitted cfg evs) sid"

definition last_units :: "nat \<Rightarrow> 'a list \<Rightarrow> 'a list" where
  \<comment> \<open>the last \<open>n\<close> code units of a string, all of it when it has fewer\<close>
  "last_units n s = drop (length s - n) s"

definition buffer_inv :: "manager \<Rightarrow> (string \<Rightarrow> string) \<Rightarrow> bool" where
  \<comment> \<open>every replay buffer in the map is the end of the output of its session\<close>
  "buffer_inv m out \<longleftrightarrow>
     (\<forall>sid e. map_of (sessions m) sid = Some e \<longrightarrow> outputBuffer e = last_units REPLAY_BUFFER_SIZE (out sid))"

definition keeps_buffers :: "manager \<Rightarrow> manager \<Rightarrow> bool" where
  \<comment> \<open>every entry of the first map is in the second map with the same replay buffer\<close>
  "keeps_buffers m' m \<longleftrightarrow>
     (\<forall>sid e'. map_of (sessions m') sid = Some e' \<longrightarrow>
        (\<exists>e. map_of (sessions m) sid = Some e \<and> outputBuffer e' = outputBuffer e))"

definition entry_pty :: "manager \<Rightarrow> string \<Rightarrow> nat option option" where
  "entry_pty m sid = map_option pty (map_of (sessions m) sid)"

section \<open>Terminal WebSocket: frames and the message handler\<close>

text \<open>
  A text frame is first given to \<open>JSON.parse\<close>, which either throws or yields a JSON value
  (an object lists each key once). The value is then checked by the frame schema.
\<close>

datatype json =
    JNull
  | JBool bool
  | JNum rat
  | JStr string
  | JArr "json list"
  | JObj "(string \<times> json) list"

datatype frame = NotJson | Json json

datatype ClientMessage =
    Attach "string option" "rat option" "rat option" "string option"
  | Input string
  | Resize rat rat
  | Ping
  | Restart

text \<open>
  Field schemas: \<open>None\<close> is a validation failure; for an optional field
  \<open>Some None\<close> is an absent key.
\<close>

definition z_string :: "nat \<Rightarrow> nat option \<Rightarrow> json \<Rightarrow> string option" where
  \<comment> \<open>\<open>z.string().min(lo).max(hi)\<close>\<close>
  "z_string lo hi j =
     (case j of
        JStr s \<Rightarrow> if lo \<le> length s \<and> (case hi of None \<Rightarrow> True | Some h \<Rightarrow> length s \<le> h)
                  then Some s else None
      | _ \<Rightarrow> None)"

definition z_number :: "rat \<Rightarrow> rat \<Rightarrow> json \<Rightarrow> rat option" where
  \<comment> \<open>\<open>z.number().min(lo).max(hi)\<close>\<close>
  "z_number lo hi j = (case j of JNum x \<Rightarrow> if lo \<le> x \<and> x \<le> hi then Some x else None | _ \<Rightarrow> None)"

definition z_optional :: "(json \<Rightarrow> 'a option) \<Rightarrow> json option \<Rightarrow> 'a option option" where
  "z_optional sch field =
     (case field of
        None \<Rightarrow> Some None
      | Some j \<Rightarrow> (case sch j of None \<Rightarrow> None | Some v \<Rightarrow> Some (Some v)))"

definition z_required :: "(json \<Rightarrow> 'a option) \<Rightarrow> json option \<Rightarrow> 'a option" where
  "z_required sch field = (case field of None \<Rightarrow> None | Some j \<Rightarrow> sch j)"

definition clientMessageSchema :: "json \<Rightarrow> ClientMessage option" where
  \<comment> \<open>the discriminated union on \<open>type\<close>; keys a member does not name are dropped\<close>
  "clientMessageSchema j =
     (case j of
        JObj fs \<Rightarrow>
          (case map_of fs ''type'' of
             Some (JStr t) \<Rightarrow>
               if t = ''attach'' then
                 (case (z_optional (z_string 0 None) (map_of fs ''sessionId''),
                        z_optional (z_number 1 500) (map_of fs ''cols''),
                        z_optional (z_number 1 200) (map_of fs ''rows''),
                        z_optional (z_string 1 (Some 100)) (map_of fs ''branch'')) of
                    (Some sid, Some c, Some r, Some b) \<Rightarrow> Some (Attach sid c r b)
                  | _ \<Rightarrow> None)
               else if t = ''input'' then
                 (case z_required (z_string 0 (Some 65536)) (map_of fs ''data'') of
                    Some d \<Rightarrow> Some (Input d) | None \<Rightarrow> None)
               else if t = ''resize'' then
                 (case (z_required (z_number 1 500) (map_of fs ''cols''),
                        z_required (z_number 1 200) (map_of fs ''rows'')) of
                    (Some c, Some r) \<Rightarrow> Some (Resize c r)
                  | _ \<Rightarrow> None)
               else if t = ''ping'' then Some Ping
               else if t = ''restart'' then Some Restart
               else None
           | _ \<Rightarrow> None)
      | _ \<Rightarrow> None)"

definition malformed :: "frame \<Rightarrow> bool" where
  \<comment> \<open>\<open>clientMessageSchema.parse(JSON.parse(text))\<close> throws\<close>
  "malformed f = (case f of NotJson \<Rightarrow> True | Json j \<Rightarrow> clientMessageSchema j = None)"

text \<open>
  What the handler of one socket keeps: the verified user, the repository of the
  connection, the client id, the session it is attached to, the liveness flag, and whether
  the socket is in state \<open>OPEN\<close>. The handler never closes the socket; only the keep-alive
  timer and the peer do.
\<close>

record connection =
  conn_email :: string
  conn_repoId :: string
  conn_repoPath :: string
  conn_clientId :: string
  currentSessionId :: "string option"
  isAlive :: bool
  sock_open :: bool

definition sendMessage :: "connection \<Rightarrow> ServerMessage \<Rightarrow> ServerMessage list" where
  \<comment> \<open>the frames put on the socket: one if it is open, none otherwise\<close>
  "sendMessage conn msg = (if sock_open conn then [msg] else [])"

definition or_default :: "string \<Rightarrow> string \<Rightarrow> string" where
  \<comment> \<open>\<open>s || d\<close> on strings\<close>
  "or_default s d = (if s = [] then d else s)"

definition truthy :: "string option \<Rightarrow> string option" where
  \<comment> \<open>the string tested by \<open>if (s)\<close>: present and not empty\<close>
  "truthy s = (case s of None \<Rightarrow> None | Some v \<Rightarrow> if v = [] then None else Some v)"

definition attach_to ::
  "env \<Rightarrow> connection \<Rightarrow> manager \<Rightarrow> ClaudeSession \<Rightarrow> ServerMessage list \<times> connection \<times> manager" where
  \<comment> \<open>the part of the attach case after the session has been found or created\<close>
  "attach_to ev conn m s =
     (let conn1 = conn\<lparr> currentSessionId := Some (id s) \<rparr>
      in case attachClient ev m (id s) (conn_clientId conn) of
           (Some (s', replay), m1) \<Rightarrow>
             (sendMessage conn1 (Status (state s') None (Some (id s')) (Some (name s')))
                @ (if replay = [] then [] else sendMessage conn1 (Replay replay)),
              conn1, m1)
         | (None, m1) \<Rightarrow> (sendMessage conn1 (ErrorMsg ''Failed to attach to session''), conn1, m1))"

definition handle_message ::
  "config \<Rightarrow> env \<Rightarrow> connection \<Rightarrow> manager \<Rightarrow> ClientMessage \<Rightarrow> ServerMessage list \<times> connection \<times> manager" where
  "handle_message cfg ev conn m msg =
     (case msg of
        Attach sessionId cols rows branch \<Rightarrow>
          (case truthy sessionId of
             Some sid \<Rightarrow>
               (case getSession m sid of
                  None \<Rightarrow> (sendMessage conn (ErrorMsg ''Session not found''), conn, m)
                | Some existingSession \<Rightarrow>
                    if userEmail existingSession \<noteq> conn_email conn \<or> repoId existingSession \<noteq> conn_repoId conn
                    then (sendMessage conn (ErrorMsg ''Session access denied''), conn, m)
                    else attach_to ev conn m existingSession)
           | None \<Rightarrow>
               (case createSession cfg ev m (conn_email conn) (conn_repoId conn) (conn_repoPath conn) None cols rows of
                  (Inl e, m1) \<Rightarrow>
                    (sendMessage conn (ErrorMsg (or_default (message e) ''Failed to create session'')), conn, m1)
                | (Inr s, m1) \<Rightarrow> attach_to ev conn m1 s))
      | Input data \<Rightarrow>
          (case truthy (currentSessionId conn) of
             None \<Rightarrow> (sendMessage conn (ErrorMsg ''Not attached to session''), conn, m)
           | Some sid \<Rightarrow>
               (case sendInput ev m sid data of
                  (success, m1) \<Rightarrow>
                    (if success then [] else sendMessage conn (ErrorMsg ''Session not running''), conn, m1)))
      | Resize cols rows \<Rightarrow>
          (case truthy (currentSessionId conn) of
             None \<Rightarrow> ([], conn, m)
           | Some sid \<Rightarrow> ([], conn, snd (resize m sid cols rows)))
      | Ping \<Rightarrow> (sendMessage conn Pong, conn, m)
      | Restart \<Rightarrow>
          (case truthy (currentSessionId conn) of
             None \<Rightarrow> (sendMessage conn (ErrorMsg ''Not attached to session''), conn, m)
           | Some sid \<Rightarrow>
               (case restartSession cfg ev m sid of
                  (Inr (Some s), m1) \<Rightarrow>
                    (sendMessage conn (Status (state s) (Some ''Session restarted'') None None), conn, m1)
                | (Inr None, m1) \<Rightarrow> (sendMessage conn (ErrorMsg ''Failed to restart session''), conn, m1)
                | (Inl e, m1) \<Rightarrow>
                    (sendMessage conn (ErrorMsg (or_default (message e) ''Failed to restart session'')), conn, m1))))"

definition on_message ::
  "config \<Rightarrow> env \<Rightarrow> connection \<Rightarrow> manager \<Rightarrow> frame \<Rightarrow> ServerMessage list \<times> connection \<times> manager" where
  \<comment> \<open>the \<open>message\<close> listener of the socket: frames sent by the handler itself, in order\<close>
  "on_message cfg ev conn m f =
     (let conn1 = conn\<lparr> isAlive := True \<rparr>
      in case f of
           NotJson \<Rightarrow> (sendMessage conn1 (ErrorMsg ''Invalid message format''), conn1, m)
         | Json j \<Rightarrow>
             (case clientMessageSchema j of
                None \<Rightarrow> (sendMessage conn1 (ErrorMsg ''Invalid message format''), conn1, m)
              | Some msg \<Rightarrow> handle_message cfg ev conn1 m msg))"

definition conn_fresh :: connection where
  \<comment> \<open>an open socket of \<open>u@x\<close> on \<open>r/demo\<close> that has not attached yet\<close>
  "conn_fresh = \<lparr> conn_email = ''u@x'', conn_repoId = ''r/demo'', conn_repoPath = ''/r/demo'',
     conn_clientId = ''c9'', currentSessionId = None, isAlive = False, sock_open = True \<rparr>"

definition frame_of :: "string \<Rightarrow> (string \<times> json) list \<Rightarrow> frame" where
  "frame_of t kvs = Json (JObj ((''type'', JStr t) # kvs))"

section \<open>Paths\<close>

text \<open>
  The POSIX flavour of the \<open>path\<close> module of the runtime, as far as the program uses it.
  A path is cut at its slashes into segments; \<open>normalize\<close> drops empty and \<open>.\<close> segments
  and lets a \<open>..\<close> segment cancel the segment before it (above the start of a relative
  path it stays, above the root it is dropped).
\<close>

definition isAbsolute :: "string \<Rightarrow> bool" where
  "isAbsolute p = prefix ''/'' p"

fun intercalate :: "string \<Rightarrow> string list \<Rightarrow> string" where
  "intercalate sep [] = []"
| "intercalate sep [s] = s"
| "intercalate sep (s # t # ss) = s @ sep @ intercalate sep (t # ss)"

fun norm_segs :: "bool \<Rightarrow> string list \<Rightarrow> string list \<Rightarrow> string list" where
  \<comment> \<open>\<open>normalizeString\<close>; the segments kept so far are held last-first\<close>
  "norm_segs allowAboveRoot st [] = rev st"
| "norm_segs allowAboveRoot st (s # ss) =
     (if s = [] \<or> s = ''.'' then norm_segs allowAboveRoot st ss
      else if s = ''..'' then
        (case st of
           t # ts \<Rightarrow> if t \<noteq> ''..'' then norm_segs allowAboveRoot ts ss
                     else if allowAboveRoot then norm_segs allowAboveRoot (''..'' # st) ss
                     else norm_segs allowAboveRoot st ss
         | [] \<Rightarrow> if allowAboveRoot then norm_segs allowAboveRoot [''..''] ss
                 else norm_segs allowAboveRoot [] ss)
      else norm_segs allowAboveRoot (s # st) ss)"

definition normalize :: "string \<Rightarrow> string" where
  "normalize p =
     (if p = [] then ''.''
      else
        (let absolute = prefix ''/'' p;
             trailingSeparator = suffix ''/'' p;
             path = intercalate ''/'' (norm_segs (\<not> absolute) [] (split_on CHR ''/'' p))
         in if path = [] then (if absolute then ''/'' else if trailingSeparator then ''./'' else ''.'')
            else (if absolute then ''/'' else []) @ path @ (if trailingSeparator then ''/'' else [])))"

definition join :: "string list \<Rightarrow> string" where
  "join args =
     (let joined = intercalate ''/'' (filter (\<lambda>a. a \<noteq> []) args)
      in if joined = [] then ''.'' else normalize joined)"

definition dirname :: "string \<Rightarrow> string" where
  \<comment> \<open>trailing slashes and the last segment are cut off, up to the slash before them;
      the first character is never cut\<close>
  "dirname p =
     (if p = [] then ''.''
      else
        (let hasRoot = prefix ''/'' p;
             r = dropWhile (\<lambda>c. c \<noteq> CHR ''/'') (dropWhile (\<lambda>c. c = CHR ''/'') (rev (tl p)))
         in if r = [] then (if hasRoot then ''/'' else ''.'')
            else if hasRoot \<and> length r = 1 then ''//''
            else take (length r) p))"

definition basename :: "string \<Rightarrow> string" where
  "basename p = rev (takeWhile (\<lambda>c. c \<noteq> CHR ''/'') (dropWhile (\<lambda>c. c = CHR ''/'') (rev p)))"

definition extname :: "string \<Rightarrow> string" where
  \<comment> \<open>from the last dot of the last segment, unless that dot opens the segment or the
      segment is \<open>..\<close>\<close>
  "extname p =
     (let b = basename p;
          e = rev (takeWhile (\<lambda>c. c \<noteq> CHR ''.'') (rev b))
      in if \<not> str_includes b ''.'' then []
         else if length e + 1 = length b then []
         else if b = ''..'' then []
         else CHR ''.'' # e)"

definition lower_char :: "char \<Rightarrow> char" where
  \<comment> \<open>\<open>toLowerCase\<close> on a code unit below 256: bit 5 is set on A to Z and on the
      upper-case Latin-1 letters (192 to 222 except 215)\<close>
  "lower_char c =
     (if (65 \<le> (of_char c :: nat) \<and> (of_char c :: nat) \<le> 90)
         \<or> (192 \<le> (of_char c :: nat) \<and> (of_char c :: nat) \<le> 222 \<and> (of_char c :: nat) \<noteq> 215)
      then Char (digit0 c) (digit1 c) (digit2 c) (digit3 c) (digit4 c) True (digit6 c) (digit7 c)
      else c)"

definition toLowerCase :: "string \<Rightarrow> string" where
  "toLowerCase s = map lower_char s"

section \<open>Path safety\<close>

datatype errno = ENOENT | ENOTDIR | ELOOP | EISDIR | EEXIST

datatype fs_error =
    PathSecurityError string
  | SystemError errno
  | WriteFailed errno

definition validateRelativePath :: "string \<Rightarrow> fs_error option" where
  \<comment> \<open>\<open>None\<close>: the path passes\<close>
  "validateRelativePath relativePath =
     (if relativePath = [] then Some (PathSecurityError ''Path cannot be empty'')
      else if isAbsolute relativePath then Some (PathSecurityError ''Absolute paths are not allowed'')
      else
        (let normalized = normalize relativePath
         in if prefix ''..'' normalized \<or> str_includes normalized ''/..''
               \<or> str_includes normalized [CHR 0x5C, CHR ''.'', CHR ''.'']
            then Some (PathSecurityError ''Path traversal (..) is not allowed'')
            else if prefix ''/'' normalized \<or> prefix [CHR 0x5C] normalized
            then Some (PathSecurityError ''Path cannot start with a separator'')
            else None))"

section \<open>The file system\<close>

text \<open>
  The file system the program runs on is a parameter: a finite tree of directories, regular
  files (their bytes) and symbolic links (their target text), keyed by the list of names
  from the root. Path resolution follows symbolic links, at most 40 in one resolution.
\<close>

datatype node = File string | Dir | Link string

type_synonym fs = "string list \<Rightarrow> node option"

definition comps :: "string \<Rightarrow> string list" where
  "comps p = filter (\<lambda>s. s \<noteq> []) (split_on CHR ''/'' p)"

definition render :: "string list \<Rightarrow> string" where
  "render cs = CHR ''/'' # intercalate ''/'' cs"

function walk :: "bool \<Rightarrow> fs \<Rightarrow> nat \<Rightarrow> string list \<Rightarrow> string list \<Rightarrow> errno + string list" where
  \<comment> \<open>resolution of the names \<open>rest\<close> below the directory \<open>cur\<close>; with \<open>create\<close> a missing
      last name resolves to the place where it would be made\<close>
  "walk create fs n cur [] = Inr cur"
| "walk create fs n cur (c # cs) =
     (if c = ''.'' then walk create fs n cur cs
      else if c = ''..'' then walk create fs n (butlast cur) cs
      else
        (case fs (cur @ [c]) of
           None \<Rightarrow> if create \<and> cs = [] then Inr (cur @ [c]) else Inl ENOENT
         | Some Dir \<Rightarrow> walk create fs n (cur @ [c]) cs
         | Some (File b) \<Rightarrow> if cs = [] then Inr (cur @ [c]) else Inl ENOTDIR
         | Some (Link t) \<Rightarrow>
             (case n of
                0 \<Rightarrow> Inl ELOOP
              | Suc k \<Rightarrow> walk create fs k (if isAbsolute t then [] else cur) (comps t @ cs))))"
  by pat_completeness auto
termination
  by (relation "measures [\<lambda>(create, fs, n, cur, rest). n, \<lambda>(create, fs, n, cur, rest). length rest]") auto

definition node_at :: "fs \<Rightarrow> string list \<Rightarrow> node option" where
  \<comment> \<open>the root is a directory\<close>
  "node_at fs k = (if k = [] then Some Dir else fs k)"

definition is_file :: "fs \<Rightarrow> string list \<Rightarrow> bool" where
  "is_file fs k = (case node_at fs k of Some (File b) \<Rightarrow> True | _ \<Rightarrow> False)"

definition fs_realpath :: "fs \<Rightarrow> string \<Rightarrow> errno + string" where
  \<comment> \<open>\<open>fs.realpath\<close>; a path with a trailing slash must name a directory\<close>
  "fs_realpath fs p =
     (case walk False fs 40 [] (comps p) of
        Inl e \<Rightarrow> Inl e
      | Inr k \<Rightarrow> if suffix ''/'' p \<and> is_file fs k then Inl ENOTDIR else Inr (render k))"

definition fs_stat :: "fs \<Rightarrow> string \<Rightarrow> errno + (nat \<times> bool)" where
  \<comment> \<open>\<open>fs.stat\<close>: size in bytes and \<open>isFile()\<close>\<close>
  "fs_stat fs p =
     (case walk False fs 40 [] (comps p) of
        Inl e \<Rightarrow> Inl e
      | Inr k \<Rightarrow>
          (case node_at fs k of
             Some (File b) \<Rightarrow> if suffix ''/'' p then Inl ENOTDIR else Inr (length b, True)
           | _ \<Rightarrow> Inr (4096, False)))"

definition fs_read :: "fs \<Rightarrow> string \<Rightarrow> errno + string" where
  \<comment> \<open>the bytes of a regular file\<close>
  "fs_read fs p =
     (case walk False fs 40 [] (comps p) of
        Inl e \<Rightarrow> Inl e
      | Inr k \<Rightarrow>
          (case node_at fs k of
             Some (File b) \<Rightarrow> if suffix ''/'' p then Inl ENOTDIR else Inr b
           | _ \<Rightarrow> Inl EISDIR))"

definition fs_write :: "fs \<Rightarrow> string \<Rightarrow> string \<Rightarrow> errno + fs" where
  \<comment> \<open>opens for writing, creating or truncating, and stores the bytes\<close>
  "fs_write fs p bytes =
     (case walk True fs 40 [] (comps p) of
        Inl e \<Rightarrow> Inl e
      | Inr k \<Rightarrow>
          (case node_at fs k of
             Some (File b) \<Rightarrow> if suffix ''/'' p then Inl ENOTDIR else Inr (fs(k \<mapsto> File bytes))
           | None \<Rightarrow> if suffix ''/'' p then Inl EISDIR else Inr (fs(k \<mapsto> File bytes))
           | _ \<Rightarrow> Inl EISDIR))"

fun mkdir_from :: "fs \<Rightarrow> string list \<Rightarrow> string list \<Rightarrow> errno + fs" where
  \<comment> \<open>\<open>mkdir\<close> with \<open>recursive: true\<close>: makes the directories that are missing\<close>
  "mkdir_from fs cur [] = Inr fs"
| "mkdir_from fs cur (c # cs) =
     (case fs (cur @ [c]) of
        None \<Rightarrow> mkdir_from (fs(cur @ [c] \<mapsto> Dir)) (cur @ [c]) cs
      | Some Dir \<Rightarrow> mkdir_from fs (cur @ [c]) cs
      | Some (File b) \<Rightarrow> Inl (if cs = [] then EEXIST else ENOTDIR)
      | Some (Link t) \<Rightarrow>
          (case walk False fs 40 cur [c] of
             Inl e \<Rightarrow> Inl e
           | Inr k \<Rightarrow> if node_at fs k = Some Dir then mkdir_from fs k cs
                      else Inl (if cs = [] then EEXIST else ENOTDIR)))"

definition fs_mkdirp :: "fs \<Rightarrow> string \<Rightarrow> errno + fs" where
  "fs_mkdirp fs p = mkdir_from fs [] (filter (\<lambda>c. c \<noteq> ''.'' \<and> c \<noteq> ''..'') (comps (normalize p)))"

section \<open>Text and bytes\<close>

text \<open>
  The content of a file is a string of the program with all its code units, sixteen bits each.
  Writing encodes it as UTF-8 and reading decodes UTF-8, the way the runtime does both: a
  surrogate pair is one character of four bytes, a surrogate without its partner is written
  as the replacement character \<open>U+FFFD\<close>, and a byte sequence that is not UTF-8 is read as
  \<open>U+FFFD\<close>, once for each maximal prefix of a well-formed sequence.
\<close>

type_synonym utf16 = "16 word list"

definition utf16_of :: "string \<Rightarrow> utf16" where
  \<comment> \<open>a string of code units below 256, as a string of code units\<close>
  "utf16_of s = map (\<lambda>c. word_of_nat (of_char c)) s"

definition high_surrogate :: "16 word \<Rightarrow> bool" where
  "high_surrogate u \<longleftrightarrow> 0xD800 \<le> unat u \<and> unat u \<le> 0xDBFF"

definition low_surrogate :: "16 word \<Rightarrow> bool" where
  "low_surrogate u \<longleftrightarrow> 0xDC00 \<le> unat u \<and> unat u \<le> 0xDFFF"

definition lone :: "16 word \<Rightarrow> nat" where
  \<comment> \<open>the character a code unit stands for when it is not part of a pair\<close>
  "lone u = (if high_surrogate u \<or> low_surrogate u then 0xFFFD else unat u)"

fun code_points :: "utf16 \<Rightarrow> nat list" where
  "code_points [] = []"
| "code_points [u] = [lone u]"
| "code_points (u # v # us) =
     (if high_surrogate u \<and> low_surrogate v
      then (0x10000 + (unat u - 0xD800) * 0x400 + (unat v - 0xDC00)) # code_points us
      else lone u # code_points (v # us))"

fun isWellFormed :: "utf16 \<Rightarrow> bool" where
  \<comment> \<open>no surrogate without its partner\<close>
  "isWellFormed [] = True"
| "isWellFormed [u] = (\<not> high_surrogate u \<and> \<not> low_surrogate u)"
| "isWellFormed (u # v # us) =
     (if high_surrogate u \<and> low_surrogate v then isWellFormed us
      else \<not> high_surrogate u \<and> \<not> low_surrogate u \<and> isWellFormed (v # us))"

definition utf8_bytes :: "nat \<Rightarrow> nat list" where
  "utf8_bytes cp =
     (if cp < 0x80 then [cp]
      else if cp < 0x800 then [0xC0 + cp div 0x40, 0x80 + cp mod 0x40]
      else if cp < 0x10000 then [0xE0 + cp div 0x1000, 0x80 + cp div 0x40 mod 0x40, 0x80 + cp mod 0x40]
      else [0xF0 + cp div 0x40000, 0x80 + cp div 0x1000 mod 0x40, 0x80 + cp div 0x40 mod 0x40,
            0x80 + cp mod 0x40])"

definition utf8_encode :: "utf16 \<Rightarrow> string" where
  "utf8_encode s = map char_of (concat (map utf8_bytes (code_points s)))"

function utf8_decoder :: "nat \<Rightarrow> nat \<Rightarrow> nat \<Rightarrow> nat \<Rightarrow> nat list \<Rightarrow> nat list" where
  \<comment> \<open>the decoder's state is the number of bytes still needed, the bits gathered so far and
      the range allowed for the next byte; a byte that does not fit is looked at again
      after the replacement character has been put out\<close>
  "utf8_decoder needed cp lower upper [] = (if needed = 0 then [] else [0xFFFD])"
| "utf8_decoder needed cp lower upper (b # bs) =
     (if needed = 0 then
        (if b < 0x80 then b # utf8_decoder 0 0 0x80 0xBF bs
         else if 0xC2 \<le> b \<and> b \<le> 0xDF then utf8_decoder 1 (b mod 0x20) 0x80 0xBF bs
         else if 0xE0 \<le> b \<and> b \<le> 0xEF
           then utf8_decoder 2 (b mod 0x10) (if b = 0xE0 then 0xA0 else 0x80) (if b = 0xED then 0x9F else 0xBF) bs
         else if 0xF0 \<le> b \<and> b \<le> 0xF4
           then utf8_decoder 3 (b mod 0x8) (if b = 0xF0 then 0x90 else 0x80) (if b = 0xF4 then 0x8F else 0xBF) bs
         else 0xFFFD # utf8_decoder 0 0 0x80 0xBF bs)
      else if lower \<le> b \<and> b \<le> upper then
        (if needed = 1 then (cp * 0x40 + b mod 0x40) # utf8_decoder 0 0 0x80 0xBF bs
         else utf8_decoder (needed - 1) (cp * 0x40 + b mod 0x40) 0x80 0xBF bs)
      else 0xFFFD # utf8_decoder 0 0 0x80 0xBF (b # bs))"
  by pat_completeness auto
termination
  by (relation "measure (\<lambda>(needed, cp, lower, upper, bs). 2 * length bs + (if needed = 0 then 0 else 1))")
     auto

declare utf8_decoder.simps [simp del]

definition utf16_units :: "nat \<Rightarrow> utf16" where
  "utf16_units cp =
     (if cp < 0x10000 then [word_of_nat cp]
      else [word_of_nat (0xD800 + (cp - 0x10000) div 0x400), word_of_nat (0xDC00 + (cp - 0x10000) mod 0x400)])"

definition utf8_decode :: "string \<Rightarrow> utf16" where
  "utf8_decode bytes = concat (map utf16_units (utf8_decoder 0 0 0x80 0xBF (map of_char bytes)))"

definition byteLength :: "utf16 \<Rightarrow> nat" where
  \<comment> \<open>\<open>Buffer.byteLength(content, 'utf-8')\<close>\<close>
  "byteLength content = length (utf8_encode content)"

definition scalar :: "nat \<Rightarrow> bool" where
  \<comment> \<open>a character that is not a surrogate\<close>
  "scalar cp \<longleftrightarrow> cp < 0xD800 \<or> (0xE000 \<le> cp \<and> cp < 0x110000)"

section \<open>Reading and writing files of a repository\<close>

definition BINARY_EXTENSIONS :: "string list" where
  "BINARY_EXTENSIONS =
     [''.png'', ''.jpg'', ''.jpeg'', ''.gif'', ''.ico'', ''.webp'', ''.bmp'', ''.tiff'',
      ''.mp3'', ''.mp4'', ''.wav'', ''.ogg'', ''.webm'', ''.avi'', ''.mov'',
      ''.zip'', ''.tar'', ''.gz'', ''.rar'', ''.7z'',
      ''.pdf'', ''.doc'', ''.docx'', ''.xls'', ''.xlsx'', ''.ppt'', ''.pptx'',
      ''.exe'', ''.dll'', ''.so'', ''.dylib'',
      ''.woff'', ''.woff2'', ''.ttf'', ''.eot'', ''.otf'',
      ''.sqlite'', ''.db'']"

definition resolveFilePath :: "fs \<Rightarrow> string \<Rightarrow> string \<Rightarrow> fs_error + string" where
  "resolveFilePath fs repoDir relativePath =
     (case validateRelativePath relativePath of
        Some e \<Rightarrow> Inl e
      | None \<Rightarrow>
          (let candidatePath = join [repoDir, relativePath];
               found =
                 (case fs_realpath fs candidatePath of
                    Inr realPath \<Rightarrow> Inr realPath
                  | Inl ENOENT \<Rightarrow>
                      (case fs_realpath fs (dirname candidatePath) of
                         Inr realParent \<Rightarrow> Inr (join [realParent, basename candidatePath])
                       | Inl e \<Rightarrow> Inl (PathSecurityError (''Path does not exist: '' @ relativePath)))
                  | Inl e \<Rightarrow> Inl (SystemError e))
           in case found of
                Inl e \<Rightarrow> Inl e
              | Inr realPath \<Rightarrow>
                  if \<not> prefix (normalize repoDir) (normalize realPath)
                  then Inl (PathSecurityError ''Path escapes repository boundary (symlink detected)'')
                  else Inr realPath))"

definition readFile :: "config \<Rightarrow> fs \<Rightarrow> string \<Rightarrow> string \<Rightarrow> fs_error + (string \<times> utf16)" where
  \<comment> \<open>the response is the pair of \<open>path\<close> and \<open>content\<close>\<close>
  "readFile cfg fs repoDir relativePath =
     (case resolveFilePath fs repoDir relativePath of
        Inl e \<Rightarrow> Inl e
      | Inr filePath \<Rightarrow>
          if toLowerCase (extname relativePath) \<in> set BINARY_EXTENSIONS
          then Inl (PathSecurityError (''Binary files are not supported: '' @ relativePath))
          else
            (case fs_stat fs filePath of
               Inl ENOENT \<Rightarrow> Inl (PathSecurityError (''File not found: '' @ relativePath))
             | Inl e \<Rightarrow> Inl (SystemError e)
             | Inr (sz, isFile) \<Rightarrow>
                 if number_less (MAX_FILE_SIZE_BYTES cfg) (of_nat sz)
                 then Inl (PathSecurityError (''File too large: '' @ show_nat sz @ '' bytes (max: ''
                                               @ show_number (MAX_FILE_SIZE_BYTES cfg) @ '')''))
                 else if \<not> isFile then Inl (PathSecurityError (''Not a file: '' @ relativePath))
                 else
                   (case fs_read fs filePath of
                      Inl ENOENT \<Rightarrow> Inl (PathSecurityError (''File not found: '' @ relativePath))
                    | Inl e \<Rightarrow> Inl (SystemError e)
                    | Inr bytes \<Rightarrow> Inr (relativePath, utf8_decode bytes))))"

definition writeFile ::
  "config \<Rightarrow> fs \<Rightarrow> string \<Rightarrow> string \<Rightarrow> utf16 \<Rightarrow> fs_error + ((bool \<times> nat) \<times> fs)" where
  \<comment> \<open>the response is the pair of \<open>ok\<close> and \<open>bytesWritten\<close>; the file system is returned with
      it. A system error while making the directory or writing is thrown on as a plain error
      whose message is \<open>Failed to write file: \<close> and the text of the system error; the
      system error stands for that text\<close>
  "writeFile cfg fs repoDir relativePath content =
     (let contentBytes = byteLength content
      in if number_less (MAX_FILE_SIZE_BYTES cfg) (of_nat contentBytes)
         then Inl (PathSecurityError (''Content too large: '' @ show_nat contentBytes @ '' bytes (max: ''
                                       @ show_number (MAX_FILE_SIZE_BYTES cfg) @ '')''))
         else
           (case resolveFilePath fs repoDir relativePath of
              Inl e \<Rightarrow> Inl e
            | Inr filePath \<Rightarrow>
                (case fs_mkdirp fs (dirname filePath) of
                   Inl e \<Rightarrow> Inl (WriteFailed e)
                 | Inr fs1 \<Rightarrow>
                     (case fs_write fs1 filePath (utf8_encode content) of
                        Inl e \<Rightarrow> Inl (WriteFailed e)
                      | Inr fs2 \<Rightarrow> Inr ((True, contentBytes), fs2)))))"

definition path_under :: "string \<Rightarrow> string \<Rightarrow> bool" where
  \<comment> \<open>\<open>p\<close> is the directory \<open>d\<close> or lies below it\<close>
  "path_under d p \<longleftrightarrow> p = d \<or> prefix (d @ ''/'') p"

subsection \<open>Example file systems\<close>

definition fs_sibling :: fs where
  \<comment> \<open>the repository \<open>/r/demo\<close>, a directory \<open>/r/demo2\<close> beside it with a file, and a link
      from inside the repository to that directory\<close>
  "fs_sibling = map_of
     [([''r''], Dir), ([''r'', ''demo''], Dir), ([''r'', ''demo2''], Dir),
      ([''r'', ''demo2'', ''passwd''], File ''secret''),
      ([''r'', ''demo'', ''evil''], Link ''/r/demo2'')]"

definition fs_etc :: fs where
  \<comment> \<open>the repository \<open>/r/demo\<close> with a link to \<open>/etc\<close>\<close>
  "fs_etc = map_of
     [([''r''], Dir), ([''r'', ''demo''], Dir), ([''etc''], Dir),
      ([''etc'', ''passwd''], File ''root''),
      ([''r'', ''demo'', ''evil''], Link ''/etc'')]"







definition real_dir :: "fs \<Rightarrow> string list \<Rightarrow> bool" where
  \<comment> \<open>every name on the way is a directory, none is a link\<close>
  "real_dir fs k \<longleftrightarrow> (\<forall>q. q \<noteq> [] \<and> prefix q k \<longrightarrow> fs q = Some Dir)"

lemmas path_defs =
  join_def normalize_def dirname_def basename_def extname_def isAbsolute_def comps_def render_def
  suffix_to_prefix toLowerCase_def lower_char_def

lemmas fs_defs =
  fs_realpath_def fs_stat_def fs_read_def fs_write_def fs_mkdirp_def is_file_def node_at_def
  resolveFilePath_def validateRelativePath_def readFile_def writeFile_def byteLength_def
  BINARY_EXTENSIONS_def

lemmas utf_defs =
  utf8_encode_def utf8_decode_def utf8_bytes_def utf16_units_def utf16_of_def lone_def
  high_surrogate_def low_surrogate_def utf8_decoder.simps char_of_def bit_Suc_0_iff


section \<open>Facts about branch names\<close>

text \<open>
  C3, as stated, fails for one of the two functions it names: \<open>validateBranchName\<close> of the
  worktree service returns false for \<open>feature/x\<close> and for \<open>claude/user/main\<close>, and true for
  \<open>.hidden\<close>.
\<close>

theorem validateBranchName_worktree_differs:
  "\<not> validateBranchName_worktree ''feature/x''
   \<and> \<not> validateBranchName_worktree ''claude/user/main''
   \<and> validateBranchName_worktree ''.hidden''"
  by (simp add: validateBranchName_worktree_def invalid_branch_char_def js_whitespace_def)

text \<open>
  C3, amended. \<open>validateBranchName\<close> of the git service accepts \<open>main\<close>, \<open>feature/x\<close> and
  \<open>claude/user/main\<close>, and rejects the empty name, \<open>-x\<close>, \<open>a..b\<close>, \<open>@\<close>, \<open>a@\<close> followed by
  \<open>{1}\<close>, \<open>a/./b\<close>, \<open>a//b\<close>, \<open>.hidden\<close>, \<open>x\<close> followed by a space, and \<open>x*\<close>.
  \<open>validateBranchName\<close> of the worktree service accepts \<open>main\<close> and \<open>.hidden\<close> and rejects
  the other eleven names.
\<close>

theorem validateBranchName_both_services:
  "validateBranchName ''main'' \<and> validateBranchName ''feature/x''
   \<and> validateBranchName ''claude/user/main''
   \<and> \<not> validateBranchName '''' \<and> \<not> validateBranchName ''-x'' \<and> \<not> validateBranchName ''a..b''
   \<and> \<not> validateBranchName ''@'' \<and> \<not> validateBranchName (''a@'' @ ''{1}'') \<and> \<not> validateBranchName ''a/./b''
   \<and> \<not> validateBranchName ''a//b'' \<and> \<not> validateBranchName ''.hidden'' \<and> \<not> validateBranchName ''x ''
   \<and> \<not> validateBranchName ''x*''
   \<and> validateBranchName_worktree ''main'' \<and> \<not> validateBranchName_worktree ''feature/x''
   \<and> \<not> validateBranchName_worktree ''claude/user/main''
   \<and> \<not> validateBranchName_worktree '''' \<and> \<not> validateBranchName_worktree ''-x''
   \<and> \<not> validateBranchName_worktree ''a..b'' \<and> \<not> validateBranchName_worktree ''@''
   \<and> \<not> validateBranchName_worktree (''a@'' @ ''{1}'') \<and> \<not> validateBranchName_worktree ''a/./b''
   \<and> \<not> validateBranchName_worktree ''a//b'' \<and> validateBranchName_worktree ''.hidden''
   \<and> \<not> validateBranchName_worktree ''x '' \<and> \<not> validateBranchName_worktree ''x*''"
  by (simp add: validateBranchName_def validateBranchName_worktree_def invalid_branch_char_def
      js_whitespace_def segment_ok_def suffix_to_prefix)

text \<open>
  On a name without a slash and without a dot at either end the two functions agree.
\<close>

lemma split_on_no_delim: "d \<notin> set s \<Longrightarrow> split_on d s = [s]"
  by (induction s) auto

lemma str_includes_char: "str_includes s [c] \<longleftrightarrow> c \<in> set s"
  by (induction s) auto

lemma validateBranchName_agree:
  assumes "CHR ''/'' \<notin> set b" "\<not> prefix ''.'' b" "\<not> suffix ''.'' b"
  shows "validateBranchName b = validateBranchName_worktree b"
  using assms
  by (auto simp add: validateBranchName_def validateBranchName_worktree_def split_on_no_delim
      segment_ok_def str_includes_char)

section \<open>Facts about the replay buffer\<close>

lemma REPLAY_BUFFER_SIZE_pos: "0 < REPLAY_BUFFER_SIZE"
  by (simp add: REPLAY_BUFFER_SIZE_def)

lemma length_drop_tail: "length (drop (length b - n) b) \<le> n"
proof -
  have "length b - (length b - n) \<le> n" by arith
  then show ?thesis by (simp only: length_drop)
qed

lemma append_output_eq:
  "append_output b c = drop (length (b @ c) - REPLAY_BUFFER_SIZE) (b @ c)"
proof (cases "length (b @ c) > REPLAY_BUFFER_SIZE")
  case True
  then show ?thesis
    using REPLAY_BUFFER_SIZE_pos by (simp add: append_output_def slice_last_def Let_def)
next
  case False
  then have "length (b @ c) - REPLAY_BUFFER_SIZE = 0" by arith
  with False show ?thesis
    by (simp add: append_output_def Let_def)
qed

lemma append_output_length: "length (append_output b c) \<le> REPLAY_BUFFER_SIZE"
  by (simp only: append_output_eq length_drop_tail)

lemma drop_tail_append:
  "drop (length (drop (length xs - n) xs @ c) - n) (drop (length xs - n) xs @ c)
     = drop (length (xs @ c) - n) (xs @ c)"
proof (cases "length xs \<le> n")
  case True
  then show ?thesis by simp
next
  case False
  then have l: "length (drop (length xs - n) xs) = n" by simp
  have a: "length (drop (length xs - n) xs @ c) - n = length c"
    unfolding length_append l by simp
  from False have b: "length (xs @ c) - n = length c + (length xs - n)" by simp
  from False have d: "length c + (length xs - n) - length xs = length c - n" by arith
  have "drop (length c) (drop (length xs - n) xs @ c)
          = drop (length c + (length xs - n)) xs @ drop (length c - n) c"
    unfolding drop_append l drop_drop by simp
  also have "\<dots> = drop (length c + (length xs - n)) (xs @ c)"
    unfolding drop_append d by simp
  finally show ?thesis unfolding a b .
qed

lemma append_output_suffix:
  "append_output (drop (length xs - REPLAY_BUFFER_SIZE) xs) c
     = drop (length (xs @ c) - REPLAY_BUFFER_SIZE) (xs @ c)"
  by (simp only: append_output_eq drop_tail_append)

lemma replay_fold:
  "foldl append_output (drop (length xs - REPLAY_BUFFER_SIZE) xs) chunks
     = drop (length (xs @ concat chunks) - REPLAY_BUFFER_SIZE) (xs @ concat chunks)"
proof (induction chunks arbitrary: xs)
  case Nil
  then show ?case by simp
next
  case (Cons c cs)
  have "foldl append_output (drop (length xs - REPLAY_BUFFER_SIZE) xs) (c # cs)
        = foldl append_output (drop (length (xs @ c) - REPLAY_BUFFER_SIZE) (xs @ c)) cs"
    by (simp only: foldl_Cons append_output_suffix)
  also have "\<dots> = drop (length ((xs @ c) @ concat cs) - REPLAY_BUFFER_SIZE) ((xs @ c) @ concat cs)"
    by (rule Cons.IH)
  finally show ?case by simp
qed

text \<open>
  Starting from an empty buffer, after any sequence of chunks the buffer is the last
  \<open>REPLAY_BUFFER_SIZE\<close> code units of their concatenation.
\<close>

lemma replay_fold_empty:
  "foldl append_output [] chunks = drop (length (concat chunks) - REPLAY_BUFFER_SIZE) (concat chunks)"
  using replay_fold[of "[]" chunks] by simp

section \<open>Session capacity\<close>


lemma length_update_le: "length (AList.update k v al) \<le> Suc (length al)"
  by (induction al) auto

lemma length_update_present: "map_of al k = Some v0 \<Longrightarrow> length (AList.update k v al) = length al"
  by (induction al) (auto split: if_splits)

lemma count_update_le:
  "length (filter P (AList.update k v al)) \<le> length (filter P al) + (if P (k, v) then 1 else 0)"
  by (induction al) auto

lemma count_update_present:
  "map_of al k = Some v0 \<Longrightarrow> P (k, v) = P (k, v0)
     \<Longrightarrow> length (filter P (AList.update k v al)) = length (filter P al)"
  by (induction al) (auto split: if_splits)

lemma length_delete_le: "length (AList.delete k al) \<le> length al"
  by (induction al) auto

lemma count_delete_le: "length (filter P (AList.delete k al)) \<le> length (filter P al)"
  by (induction al) auto

lemma sessions_le_refl: "sessions_le m m"
  by (simp add: sessions_le_def)

lemma sessions_le_trans: "sessions_le a b \<Longrightarrow> sessions_le b c \<Longrightarrow> sessions_le a c"
  unfolding sessions_le_def by (meson le_trans)

lemma sessions_le_same: "sessions m' = sessions m \<Longrightarrow> sessions_le m' m"
  by (simp add: sessions_le_def getUserSessionCount_def)

lemma put_entry_present:
  assumes "map_of (sessions m) sid = Some e0" "userEmail (session e) = userEmail (session e0)"
    and "sessions m1 = sessions m"
  shows "sessions_le (put_entry sid e m1) m"
  using assms
  by (simp add: sessions_le_def put_entry_def getUserSessionCount_def length_update_present
      count_update_present[where ?v0.0 = e0])

lemma sessions_send_all [simp]: "sessions (send_all cs msg m) = sessions m"
  by (simp add: send_all_def)

lemma sessions_clearTimeout [simp]: "sessions (clearTimeout h m) = sessions m"
  by (simp add: clearTimeout_def)

lemma spawnClaude_email:
  "spawnClaude cfg ev c r e m = (res, e', m') \<Longrightarrow>
     userEmail (session e') = userEmail (session e) \<and> sessions m' = sessions m"
  by (auto simp add: spawnClaude_def Let_def split: spawn_result.splits)

lemma attachClient_le: "sessions_le (snd (attachClient ev m sid c)) m"
  by (auto simp add: attachClient_def Let_def sessions_le_refl split: option.splits
      intro!: put_entry_present)

lemma detachClient_le: "sessions_le (detachClient cfg ev m sid c) m"
  by (auto simp add: detachClient_def Let_def setTimeout_def sessions_le_refl split: option.splits
      intro!: put_entry_present)

lemma sendInput_le: "sessions_le (snd (sendInput ev m sid d)) m"
  by (auto simp add: sendInput_def Let_def sessions_le_refl split: option.splits
      intro!: put_entry_present)

lemma resize_le: "sessions_le (snd (resize m sid c r)) m"
  by (auto simp add: resize_def sessions_le_refl split: option.splits intro!: sessions_le_same)

lemma renameSession_le: "sessions_le (snd (renameSession m sid n)) m"
  by (auto simp add: renameSession_def sessions_le_refl split: option.splits intro!: put_entry_present)

lemma restartSession_le: "sessions_le (snd (restartSession cfg ev m sid)) m"
proof (cases "map_of (sessions m) sid")
  case None
  then show ?thesis by (simp add: restartSession_def sessions_le_refl)
next
  case (Some entry)
  define m1 where "m1 = (case pty entry of None \<Rightarrow> m | Some p \<Rightarrow> m\<lparr> killed := killed m @ [p] \<rparr>)"
  define entry1 where "entry1 = entry\<lparr> pty := None, outputBuffer := [] \<rparr>"
  obtain res e' m2 where sp: "spawnClaude cfg ev None None entry1 m1 = (res, e', m2)"
    by (metis prod_cases3)
  have s1: "sessions m1 = sessions m" by (simp add: m1_def split: option.splits)
  from spawnClaude_email[OF sp] have "userEmail (session e') = userEmail (session entry)"
    and "sessions m2 = sessions m" using s1 by (simp_all add: entry1_def)
  then have "sessions_le (put_entry sid e' m2) m"
    using Some by (intro put_entry_present) auto
  moreover have "snd (restartSession cfg ev m sid) = put_entry sid e' m2"
    using Some sp by (simp add: restartSession_def Let_def m1_def[symmetric] entry1_def[symmetric] split: option.splits)
  ultimately show ?thesis by simp
qed

lemma cleanupSession_le: "sessions_le (snd (cleanupSession m sid)) m"
  by (auto simp add: cleanupSession_def Let_def sessions_le_def getUserSessionCount_def
      length_delete_le count_delete_le split: option.splits)


lemma sweep_le: "sessions_le (sweep test m ks) m"
proof (induction ks arbitrary: m)
  case Nil
  then show ?case by (simp add: sweep_def sessions_le_refl)
next
  case (Cons k ks)
  let ?f = "\<lambda>acc sid. case map_of (sessions acc) sid of
                         None \<Rightarrow> acc
                       | Some entry \<Rightarrow> if test entry then snd (cleanupSession acc sid) else acc"
  have "sessions_le (?f m k) m"
    by (auto simp add: sessions_le_refl cleanupSession_le split: option.splits)
  moreover have "sessions_le (sweep test (?f m k) ks) (?f m k)" by (rule Cons.IH)
  ultimately have "sessions_le (sweep test (?f m k) ks) m" by (rule sessions_le_trans[rotated])
  then show ?case by (simp add: sweep_def)
qed

lemma cleanupExpiredSessions_le: "sessions_le (cleanupExpiredSessions cfg ev m) m"
  unfolding cleanupExpiredSessions_def by (rule sweep_le)

lemma pty_onData_le: "sessions_le (pty_onData ev m p d) m"
  by (auto simp add: pty_onData_def Let_def sessions_le_refl split: option.splits
      intro!: put_entry_present)

lemma sessions_put_entry: "sessions (put_entry sid e m) = AList.update sid e (sessions m)"
  by (simp add: put_entry_def)

lemma pty_onExit_le: "sessions_le (pty_onExit m p c sg) m"
proof -
  have "sessions_le (put_entry sid (e\<lparr> pty := None, session := (session e)\<lparr> state := Exited, exitCode := Some c \<rparr> \<rparr>) m) m"
    if "map_of (sessions m) sid = Some e" for sid e
    using that by (intro put_entry_present) auto
  then show ?thesis
    by (auto simp add: pty_onExit_def Let_def sessions_le_refl sessions_le_def getUserSessionCount_def
        split: option.splits)
qed

lemma timer_fire_le: "sessions_le (timer_fire m h) m"
proof (cases "map_of (timers m) h")
  case None
  then show ?thesis by (simp add: timer_fire_def sessions_le_refl)
next
  case (Some a)
  obtain due sid where a: "a = (due, sid)" by (cases a)
  have "sessions_le (snd (cleanupSession (clearTimeout h m) sid)) (clearTimeout h m)"
    by (rule cleanupSession_le)
  moreover have "sessions_le (clearTimeout h m) m" by (simp add: sessions_le_same)
  ultimately show ?thesis using Some a by (simp add: timer_fire_def) (rule sessions_le_trans)
qed

lemma number_le_mono: "number_le a x \<Longrightarrow> x \<le> y \<Longrightarrow> number_le a y"
  by (cases a) auto

lemma within_cap_mono: "within_cap n a \<Longrightarrow> n' \<le> n \<Longrightarrow> within_cap n' a"
proof -
  assume w: "within_cap n a" and le: "n' \<le> n"
  show "within_cap n' a"
  proof (cases "n' = 0")
    case True
    then show ?thesis by (simp add: within_cap_def)
  next
    case False
    with le have n: "n \<noteq> 0" by simp
    with w have "\<not> number_le a (of_nat (n - 1))" by (simp add: within_cap_def)
    moreover from le have "(of_nat (n' - 1) :: rat) \<le> of_nat (n - 1)" by simp
    ultimately have "\<not> number_le a (of_nat (n' - 1))" using number_le_mono by blast
    then show ?thesis by (simp add: within_cap_def)
  qed
qed

lemma within_cap_next: "\<not> number_le a (of_nat n) \<Longrightarrow> n' \<le> Suc n \<Longrightarrow> within_cap n' a"
proof -
  assume "\<not> number_le a (of_nat n)"
  then have "within_cap (Suc n) a" by (simp add: within_cap_def)
  then show "n' \<le> Suc n \<Longrightarrow> within_cap n' a" by (rule within_cap_mono)
qed

lemma within_cap_whole: "within_cap n (Num (of_nat k)) \<longleftrightarrow> n \<le> k"
  by (cases n) (simp_all add: within_cap_def not_le Suc_le_eq)

lemma within_cap_finite: "within_cap n (Num q) \<longleftrightarrow> n = 0 \<or> of_nat n < q + 1"
  by (cases n) (auto simp add: within_cap_def not_le)

lemma cap_ok_le: "cap_ok cfg m \<Longrightarrow> sessions_le m' m \<Longrightarrow> cap_ok cfg m'"
  unfolding cap_ok_def sessions_le_def by (meson within_cap_mono)

lemma map_of_update_same: "map_of (AList.update k v al) k = Some v"
  by (simp add: update_conv')

lemma createSession_rejects:
  "\<not> admits cfg m email \<Longrightarrow> snd (createSession cfg ev m email repo path nm cols rows) = m"
  by (auto simp add: createSession_def admits_def)

lemma createSession_cap: 
  assumes "cap_ok cfg m"
  shows "cap_ok cfg (snd (createSession cfg ev m email repo path nm cols rows))"
proof (cases "admits cfg m email")
  case False
  with assms show ?thesis by (simp add: createSession_rejects)
next
  case True
  define entry where "entry = new_entry (new_session ev m email repo path nm)"
  define m1 where "m1 = put_entry (env_id ev) entry m"
  define m2 where "m2 = track_session (getUserRepoKey email repo) (env_id ev) m1"
  obtain res e' m3 where sp: "spawnClaude cfg ev cols rows entry m2 = (res, e', m3)"
    by (metis prod_cases3)
  have fin: "snd (createSession cfg ev m email repo path nm cols rows) = put_entry (env_id ev) e' m3"
    using True sp unfolding createSession_def Let_def entry_def m1_def m2_def admits_def
    by (simp split: option.splits)
  have em: "userEmail (session entry) = email"
    by (simp add: entry_def new_entry_def new_session_def Let_def)
  have len1: "length (sessions m1) \<le> Suc (length (sessions m))"
    by (simp add: m1_def sessions_put_entry length_update_le)
  have cnt1: "getUserSessionCount m1 u \<le> getUserSessionCount m u + (if u = email then 1 else 0)" for u
    using count_update_le[of "\<lambda>(k, e). userEmail (session e) = u" "env_id ev" entry "sessions m"] em
    by (auto simp add: m1_def sessions_put_entry getUserSessionCount_def)
  have s2: "sessions m2 = sessions m1" by (simp add: m2_def track_session_def)
  from spawnClaude_email[OF sp] have e'm: "userEmail (session e') = userEmail (session entry)"
    and s3: "sessions m3 = sessions m1" using s2 by simp_all
  have "map_of (sessions m1) (env_id ev) = Some entry"
    by (simp add: m1_def sessions_put_entry map_of_update_same)
  then have le: "sessions_le (put_entry (env_id ev) e' m3) m1"
    using e'm s3 by (intro put_entry_present) auto
  have "cap_ok cfg m1"
    unfolding cap_ok_def
  proof (intro conjI allI)
    from True have "\<not> number_le (MAX_TOTAL_SESSIONS cfg) (of_nat (length (sessions m)))"
      by (simp add: admits_def)
    then show "within_cap (length (sessions m1)) (MAX_TOTAL_SESSIONS cfg)"
      using len1 by (rule within_cap_next)
  next
    fix u
    show "within_cap (getUserSessionCount m1 u) (MAX_SESSIONS_PER_USER cfg)"
    proof (cases "u = email")
      case True
      from \<open>admits cfg m email\<close>
      have "\<not> number_le (MAX_SESSIONS_PER_USER cfg) (of_nat (getUserSessionCount m email))"
        by (simp add: admits_def)
      moreover from cnt1[of u] True have "getUserSessionCount m1 u \<le> Suc (getUserSessionCount m email)"
        by simp
      ultimately show ?thesis by (rule within_cap_next)
    next
      case False
      with cnt1[of u] have "getUserSessionCount m1 u \<le> getUserSessionCount m u" by simp
      moreover from assms have "within_cap (getUserSessionCount m u) (MAX_SESSIONS_PER_USER cfg)"
        by (simp add: cap_ok_def)
      ultimately show ?thesis using within_cap_mono by blast
    qed
  qed
  with le fin show ?thesis by (simp add: cap_ok_le)
qed

lemma step_cap: "cap_ok cfg m \<Longrightarrow> cap_ok cfg (step cfg m e)"
proof (cases e)
  case (EvCreate ev email repo path nm cols rows)
  assume "cap_ok cfg m"
  then show ?thesis using EvCreate by (simp add: createSession_cap)
qed (auto simp add: terminateSession_def intro: cap_ok_le attachClient_le detachClient_le sendInput_le resize_le
      restartSession_le cleanupSession_le renameSession_le cleanupExpiredSessions_le
      pty_onData_le pty_onExit_le timer_fire_le)

lemma foldl_step_cap: "cap_ok cfg m \<Longrightarrow> cap_ok cfg (foldl (step cfg) m evs)"
  by (induction evs arbitrary: m) (simp_all add: step_cap)

lemma init_cap: "cap_ok cfg init_manager"
  by (simp add: cap_ok_def within_cap_def init_manager_def getUserSessionCount_def)

lemma run_cap: "cap_ok cfg (run cfg evs)"
  unfolding run_def by (rule foldl_step_cap[OF init_cap])

lemma prefix_str_includes: "prefix n s \<Longrightarrow> str_includes s n"
  by (cases s) auto

lemma createSession_user_cap:
  "number_le (MAX_SESSIONS_PER_USER cfg) (of_nat (getUserSessionCount m email)) \<Longrightarrow>
     createSession cfg ev m email repo path nm cols rows
       = (Inl (Error (''Maximum sessions per user reached ('' @ show_number (MAX_SESSIONS_PER_USER cfg) @ '')'')), m)"
  by (simp add: createSession_def)

lemma createSession_total_cap:
  "\<not> number_le (MAX_SESSIONS_PER_USER cfg) (of_nat (getUserSessionCount m email)) \<Longrightarrow>
   number_le (MAX_TOTAL_SESSIONS cfg) (of_nat (length (sessions m))) \<Longrightarrow>
     createSession cfg ev m email repo path nm cols rows = (Inl (Error ''Server at maximum capacity''), m)"
  by (simp add: createSession_def)

lemma user_cap_message_matches:
  "str_includes (''Maximum sessions per user reached ('' @ rest) ''Maximum sessions per user reached''"
  by (rule prefix_str_includes) simp

lemma total_cap_message_matches:
  "\<not> str_includes ''Server at maximum capacity'' ''Maximum sessions per user reached''
   \<and> str_includes ''Server at maximum capacity'' ''Server at maximum capacity''"
  by simp

lemma m_one_sessions:
  "map (\<lambda>(k, e). userEmail (session e)) (sessions m_one) = [''u@x'']"
  by (simp add: m_one_def createSession_def cfg_default_def env_at_def init_manager_def
      getUserSessionCount_def Let_def new_entry_def new_session_def put_entry_def track_session_def
      spawnClaude_def send_all_def)

lemma count_by_email:
  "getUserSessionCount m u
     = length (filter (\<lambda>e. e = u) (map (\<lambda>(k, e). userEmail (session e)) (sessions m)))"
  by (simp add: getUserSessionCount_def filter_map comp_def case_prod_unfold)

text \<open>
  C2, as stated, fails: the schema lets \<open>MAX_SESSIONS_PER_USER=2.5\<close> through, and with two
  sessions \<open>2 >= 2.5\<close> is false, so a third session of the same user is created; three
  sessions exceed the cap of two and a half.
\<close>

theorem third_session_at_fractional_cap:
  "MAX_SESSIONS_PER_USER cfg_fraction = Num (5 / 2)
   \<and> getUserSessionCount
        (run cfg_fraction
          [EvCreate (env_at 1000 ''s1'') ''u@x'' ''r/demo'' ''/r/demo'' None None None,
           EvCreate (env_at 2000 ''s2'') ''u@x'' ''r/demo'' ''/r/demo'' None None None,
           EvCreate (env_at 3000 ''s3'') ''u@x'' ''r/demo'' ''/r/demo'' None None None]) ''u@x'' = 3
   \<and> \<not> (of_nat 3 \<le> (5 / 2 :: rat))"
  by (simp add: run_def cfg_fraction_def manager_defs Let_def show_nat.simps digit_char_def)

text \<open>
  C2, amended. In every state the manager can reach from the empty one, whatever happens to
  it, the number of sessions a user owns is zero or one more than a number below
  \<open>MAX_SESSIONS_PER_USER\<close>, and the number of all sessions is zero or one more than a number
  below \<open>MAX_TOTAL_SESSIONS\<close>; when a cap is a whole number the count is at most the cap.
  When the number of sessions of the user has reached the per-user cap, \<open>createSession\<close>
  throws and leaves the manager as it was (no entry, no PTY spawned), and
  \<open>POST /api/sessions\<close> answers 429 with code \<open>MAX_SESSIONS_PER_USER\<close>; when it has not
  but the number of all sessions has reached the global cap, \<open>createSession\<close> throws
  likewise and the answer is 503 with code \<open>SERVER_MAX_CAPACITY\<close>.
\<close>

theorem session_capacity_bounds:
  "(getUserSessionCount (run cfg evs) u = 0
      \<or> \<not> number_le (MAX_SESSIONS_PER_USER cfg) (of_nat (getUserSessionCount (run cfg evs) u - 1)))
   \<and> (length (sessions (run cfg evs)) = 0
      \<or> \<not> number_le (MAX_TOTAL_SESSIONS cfg) (of_nat (length (sessions (run cfg evs)) - 1)))
   \<and> (MAX_SESSIONS_PER_USER cfg = Num (of_nat k) \<longrightarrow> getUserSessionCount (run cfg evs) u \<le> k)
   \<and> (MAX_TOTAL_SESSIONS cfg = Num (of_nat t) \<longrightarrow> length (sessions (run cfg evs)) \<le> t)
   \<and> (number_le (MAX_SESSIONS_PER_USER cfg) (of_nat (getUserSessionCount m email)) \<longrightarrow>
        createSession cfg ev m email repo path nm cols rows
          = (Inl (Error (''Maximum sessions per user reached ('' @ show_number (MAX_SESSIONS_PER_USER cfg) @ '')'')), m)
        \<and> post_sessions cfg ev m email repo path nm
          = (Failure 429 ''Session Limit Reached''
               (''Maximum sessions per user reached ('' @ show_number (MAX_SESSIONS_PER_USER cfg) @ '')'')
               ''MAX_SESSIONS_PER_USER'', m))
   \<and> (\<not> number_le (MAX_SESSIONS_PER_USER cfg) (of_nat (getUserSessionCount m email))
        \<and> number_le (MAX_TOTAL_SESSIONS cfg) (of_nat (length (sessions m))) \<longrightarrow>
        createSession cfg ev m email repo path nm cols rows = (Inl (Error ''Server at maximum capacity''), m)
        \<and> post_sessions cfg ev m email repo path nm
          = (Failure 503 ''Server Busy'' ''Server at maximum capacity'' ''SERVER_MAX_CAPACITY'', m))"
proof (intro conjI impI)
  from run_cap[of cfg evs]
  have wu: "within_cap (getUserSessionCount (run cfg evs) u) (MAX_SESSIONS_PER_USER cfg)"
    and wt: "within_cap (length (sessions (run cfg evs))) (MAX_TOTAL_SESSIONS cfg)"
    by (simp_all add: cap_ok_def)
  from wu show "getUserSessionCount (run cfg evs) u = 0
      \<or> \<not> number_le (MAX_SESSIONS_PER_USER cfg) (of_nat (getUserSessionCount (run cfg evs) u - 1))"
    by (simp add: within_cap_def)
  from wt show "length (sessions (run cfg evs)) = 0
      \<or> \<not> number_le (MAX_TOTAL_SESSIONS cfg) (of_nat (length (sessions (run cfg evs)) - 1))"
    by (simp add: within_cap_def)
  {
    assume "MAX_SESSIONS_PER_USER cfg = Num (of_nat k)"
    with wu show "getUserSessionCount (run cfg evs) u \<le> k" by (simp add: within_cap_whole)
  }
  {
    assume "MAX_TOTAL_SESSIONS cfg = Num (of_nat t)"
    with wt show "length (sessions (run cfg evs)) \<le> t" by (simp add: within_cap_whole)
  }
next
  assume a: "number_le (MAX_SESSIONS_PER_USER cfg) (of_nat (getUserSessionCount m email))"
  show "createSession cfg ev m email repo path nm cols rows
          = (Inl (Error (''Maximum sessions per user reached ('' @ show_number (MAX_SESSIONS_PER_USER cfg) @ '')'')), m)"
    by (rule createSession_user_cap[OF a])
  show "post_sessions cfg ev m email repo path nm
          = (Failure 429 ''Session Limit Reached''
               (''Maximum sessions per user reached ('' @ show_number (MAX_SESSIONS_PER_USER cfg) @ '')'')
               ''MAX_SESSIONS_PER_USER'', m)"
    unfolding post_sessions_def createSession_user_cap[OF a, of ev repo path nm None None]
    using user_cap_message_matches by simp
next
  assume b: "\<not> number_le (MAX_SESSIONS_PER_USER cfg) (of_nat (getUserSessionCount m email))
        \<and> number_le (MAX_TOTAL_SESSIONS cfg) (of_nat (length (sessions m)))"
  then have b1: "\<not> number_le (MAX_SESSIONS_PER_USER cfg) (of_nat (getUserSessionCount m email))"
    and b2: "number_le (MAX_TOTAL_SESSIONS cfg) (of_nat (length (sessions m)))" by simp_all
  show "createSession cfg ev m email repo path nm cols rows = (Inl (Error ''Server at maximum capacity''), m)"
    by (rule createSession_total_cap[OF b1 b2])
  show "post_sessions cfg ev m email repo path nm
          = (Failure 503 ''Server Busy'' ''Server at maximum capacity'' ''SERVER_MAX_CAPACITY'', m)"
    unfolding post_sessions_def createSession_total_cap[OF b1 b2, of ev repo path nm None None]
    using total_cap_message_matches by simp
qed

theorem session_capacity_bounds_witness:
  "MAX_SESSIONS_PER_USER cfg_one = Num (of_nat 1)
   \<and> MAX_TOTAL_SESSIONS cfg_one = Num (of_nat 1)
   \<and> number_le (MAX_SESSIONS_PER_USER cfg_one) (of_nat (getUserSessionCount m_one ''u@x''))
   \<and> post_sessions cfg_one (env_at 3000 ''s2'') m_one ''u@x'' ''r/demo'' ''/r/demo'' None
        = (Failure 429 ''Session Limit Reached'' ''Maximum sessions per user reached (1)''
             ''MAX_SESSIONS_PER_USER'', m_one)
   \<and> \<not> number_le (MAX_SESSIONS_PER_USER cfg_one) (of_nat (getUserSessionCount m_one ''v@x''))
   \<and> number_le (MAX_TOTAL_SESSIONS cfg_one) (of_nat (length (sessions m_one)))
   \<and> post_sessions cfg_one (env_at 3000 ''s2'') m_one ''v@x'' ''r/demo'' ''/r/demo'' None
        = (Failure 503 ''Server Busy'' ''Server at maximum capacity'' ''SERVER_MAX_CAPACITY'', m_one)
   \<and> getUserSessionCount
        (run cfg_one [EvCreate (env_at 1000 ''s1'') ''u@x'' ''r/demo'' ''/r/demo'' None None None,
                      EvCreate (env_at 2000 ''s2'') ''u@x'' ''r/demo'' ''/r/demo'' None None None]) ''u@x'' \<le> 1
   \<and> length (sessions
        (run cfg_one [EvCreate (env_at 1000 ''s1'') ''u@x'' ''r/demo'' ''/r/demo'' None None None,
                      EvCreate (env_at 2000 ''s2'') ''u@x'' ''r/demo'' ''/r/demo'' None None None])) \<le> 1"
proof -
  let ?evs = "[EvCreate (env_at 1000 ''s1'') ''u@x'' ''r/demo'' ''/r/demo'' None None None,
               EvCreate (env_at 2000 ''s2'') ''u@x'' ''r/demo'' ''/r/demo'' None None None]"
  have l: "length (sessions m_one) = length (map (\<lambda>(k, e). userEmail (session e)) (sessions m_one))"
    by simp
  have c1: "MAX_SESSIONS_PER_USER cfg_one = Num (of_nat 1)" "MAX_TOTAL_SESSIONS cfg_one = Num (of_nat 1)"
    by (simp_all add: cfg_one_def cfg_default_def)
  have h1: "number_le (MAX_SESSIONS_PER_USER cfg_one) (of_nat (getUserSessionCount m_one ''u@x''))"
    unfolding count_by_email m_one_sessions by (simp add: cfg_one_def)
  have h2: "\<not> number_le (MAX_SESSIONS_PER_USER cfg_one) (of_nat (getUserSessionCount m_one ''v@x''))"
    unfolding count_by_email m_one_sessions by (simp add: cfg_one_def)
  have h3: "number_le (MAX_TOTAL_SESSIONS cfg_one) (of_nat (length (sessions m_one)))"
    unfolding l m_one_sessions by (simp add: cfg_one_def)
  have n: "show_number (Num 1) = ''1''"
    by (simp add: show_number_def show_int_def show_nat.simps digit_char_def)
  show ?thesis
    using c1 h1 h2 h3
      session_capacity_bounds[of cfg_one ?evs "''u@x''" 1 1 m_one "''u@x''" "env_at 3000 ''s2''"
        "''r/demo''" "''/r/demo''" None None None]
      session_capacity_bounds[of cfg_one ?evs "''u@x''" 1 1 m_one "''v@x''" "env_at 3000 ''s2''"
        "''r/demo''" "''/r/demo''" None None None]
    by (simp add: n)
qed

section \<open>How a session changes state\<close>


lemma st_put_entry:
  "session_state_of (put_entry k e m) sid
     = (if sid = k then Some (state (session e)) else session_state_of m sid)"
  by (simp add: session_state_of_def getSession_def put_entry_def update_conv')

lemma st_same: "sessions m' = sessions m \<Longrightarrow> session_state_of m' sid = session_state_of m sid"
  by (simp add: session_state_of_def getSession_def)

lemma st_entry: "map_of (sessions m) sid = Some e \<Longrightarrow> session_state_of m sid = Some (state (session e))"
  by (simp add: session_state_of_def getSession_def)

lemma nnr_refl: "no_new_running m m"
  by (simp add: no_new_running_def)

lemma nnr_trans: "no_new_running a b \<Longrightarrow> no_new_running b c \<Longrightarrow> no_new_running a c"
  unfolding no_new_running_def by blast

lemma nnr_same: "sessions m' = sessions m \<Longrightarrow> no_new_running m' m"
  unfolding no_new_running_def session_state_of_def getSession_def by simp

lemma nnr_put_entry:
  assumes "map_of (sessions m) k = Some e0" "state (session e) = Running \<longrightarrow> state (session e0) = Running"
    and "sessions m1 = sessions m"
  shows "no_new_running (put_entry k e m1) m"
proof -
  have "session_state_of m sid = Some Running"
    if "session_state_of (put_entry k e m1) sid = Some Running" for sid
  proof (cases "sid = k")
    case True
    with that have "state (session e) = Running" by (simp add: st_put_entry)
    with assms(1,2) True show ?thesis by (simp add: st_entry)
  next
    case False
    with that have "session_state_of m1 sid = Some Running" by (simp add: st_put_entry)
    then show ?thesis by (simp add: st_same[OF assms(3)])
  qed
  then show ?thesis unfolding no_new_running_def by blast
qed

lemma attachClient_nnr: "no_new_running (snd (attachClient ev m sid c)) m"
  by (auto simp add: attachClient_def Let_def nnr_refl split: option.splits intro!: nnr_put_entry)

lemma detachClient_nnr: "no_new_running (detachClient cfg ev m sid c) m"
  by (auto simp add: detachClient_def Let_def setTimeout_def nnr_refl split: option.splits
      intro!: nnr_put_entry)

lemma sendInput_nnr: "no_new_running (snd (sendInput ev m sid d)) m"
  by (auto simp add: sendInput_def Let_def nnr_refl split: option.splits intro!: nnr_put_entry)

lemma resize_nnr: "no_new_running (snd (resize m sid c r)) m"
  by (auto simp add: resize_def nnr_refl split: option.splits intro!: nnr_same)

lemma renameSession_nnr: "no_new_running (snd (renameSession m sid n)) m"
  by (auto simp add: renameSession_def nnr_refl split: option.splits intro!: nnr_put_entry)

lemma pty_onData_nnr: "no_new_running (pty_onData ev m p d) m"
  by (auto simp add: pty_onData_def Let_def nnr_refl split: option.splits intro!: nnr_put_entry)

lemma pty_onExit_nnr: "no_new_running (pty_onExit m p c sg) m"
proof -
  have "no_new_running (send_all cs msg (put_entry sid (e\<lparr> pty := None, session := (session e)\<lparr> state := Exited, exitCode := Some c \<rparr> \<rparr>) m)) m"
    if "map_of (sessions m) sid = Some e" for sid e cs msg
  proof -
    have "no_new_running (put_entry sid (e\<lparr> pty := None, session := (session e)\<lparr> state := Exited, exitCode := Some c \<rparr> \<rparr>) m) m"
      using that by (intro nnr_put_entry) auto
    moreover have "no_new_running (send_all cs msg m') m'" for m'
      by (rule nnr_same) simp
    ultimately show ?thesis by (meson nnr_trans)
  qed
  then show ?thesis
    by (auto simp add: pty_onExit_def Let_def nnr_refl split: option.splits)
qed

lemma cleanupSession_sessions:
  "sessions (snd (cleanupSession m sid)) = AList.delete sid (sessions m)"
proof (cases "map_of (sessions m) sid")
  case None
  then have "sid \<notin> fst ` set (sessions m)" by (simp add: map_of_eq_None_iff)
  then have "AList.delete sid (sessions m) = sessions m" by (rule delete_id)
  with None show ?thesis by (simp add: cleanupSession_def)
next
  case (Some entry)
  then show ?thesis
    by (simp add: cleanupSession_def Let_def clearTimeout_def send_all_def split: option.splits)
qed

lemma cleanupSession_nnr: "no_new_running (snd (cleanupSession m sid)) m"
  unfolding no_new_running_def session_state_of_def getSession_def cleanupSession_sessions
  by (simp add: delete_conv')

lemma sweep_nnr: "no_new_running (sweep test m ks) m"
proof (induction ks arbitrary: m)
  case Nil
  then show ?case by (simp add: sweep_def nnr_refl)
next
  case (Cons k ks)
  let ?f = "\<lambda>acc sid. case map_of (sessions acc) sid of
                         None \<Rightarrow> acc
                       | Some entry \<Rightarrow> if test entry then snd (cleanupSession acc sid) else acc"
  have "no_new_running (?f m k) m"
    by (auto simp add: nnr_refl cleanupSession_nnr split: option.splits)
  moreover have "no_new_running (sweep test (?f m k) ks) (?f m k)" by (rule Cons.IH)
  ultimately have "no_new_running (sweep test (?f m k) ks) m" by (rule nnr_trans[rotated])
  then show ?case by (simp add: sweep_def)
qed

lemma cleanupExpiredSessions_nnr: "no_new_running (cleanupExpiredSessions cfg ev m) m"
  unfolding cleanupExpiredSessions_def by (rule sweep_nnr)

lemma timer_fire_nnr: "no_new_running (timer_fire m h) m"
proof (cases "map_of (timers m) h")
  case None
  then show ?thesis by (simp add: timer_fire_def nnr_refl)
next
  case (Some a)
  obtain due sid where a: "a = (due, sid)" by (cases a)
  have "no_new_running (snd (cleanupSession (clearTimeout h m) sid)) (clearTimeout h m)"
    by (rule cleanupSession_nnr)
  moreover have "no_new_running (clearTimeout h m) m" by (simp add: nnr_same)
  ultimately show ?thesis using Some a by (simp add: timer_fire_def) (rule nnr_trans)
qed

lemma spawnClaude_cases:
  "spawnClaude cfg ev c r e m = (res, e', m') \<Longrightarrow>
     sessions m' = sessions m \<and>
     (case env_spawn ev of
        SpawnOk \<Rightarrow> res = None \<and> e' = e\<lparr> pty := Some (length (spawned m)), session := (session e)\<lparr> state := Running \<rparr> \<rparr>
      | SpawnThrows x \<Rightarrow> res = Some x \<and> e' = e\<lparr> session := (session e)\<lparr> state := Exited, exitCode := Some 1 \<rparr> \<rparr>)"
  by (auto simp add: spawnClaude_def Let_def split: spawn_result.splits)

lemma createSession_shape:
  assumes "admits cfg m email"
  shows "\<exists>res e' m3. spawnClaude cfg ev cols rows (new_entry (new_session ev m email repo path nm))
             (track_session (getUserRepoKey email repo) (env_id ev)
                (put_entry (env_id ev) (new_entry (new_session ev m email repo path nm)) m)) = (res, e', m3)
           \<and> createSession cfg ev m email repo path nm cols rows
               = ((case res of Some e \<Rightarrow> Inl e | None \<Rightarrow> Inr (session e')), put_entry (env_id ev) e' m3)"
proof -
  obtain res e' m3 where sp: "spawnClaude cfg ev cols rows (new_entry (new_session ev m email repo path nm))
             (track_session (getUserRepoKey email repo) (env_id ev)
                (put_entry (env_id ev) (new_entry (new_session ev m email repo path nm)) m)) = (res, e', m3)"
    by (metis prod_cases3)
  then show ?thesis using assms
    unfolding createSession_def Let_def admits_def by (auto split: option.splits)
qed

lemma createSession_running_only_on_spawn:
  assumes "session_state_of (snd (createSession cfg ev m email repo path nm cols rows)) sid = Some Running"
    and "session_state_of m sid \<noteq> Some Running"
  shows "env_spawn ev = SpawnOk \<and> env_id ev = sid"
proof (cases "admits cfg m email")
  case False
  then have "snd (createSession cfg ev m email repo path nm cols rows) = m"
    by (rule createSession_rejects)
  with assms show ?thesis by simp
next
  case True
  then obtain res e' m3 where
    sp: "spawnClaude cfg ev cols rows (new_entry (new_session ev m email repo path nm))
             (track_session (getUserRepoKey email repo) (env_id ev)
                (put_entry (env_id ev) (new_entry (new_session ev m email repo path nm)) m)) = (res, e', m3)"
    and cr: "createSession cfg ev m email repo path nm cols rows
               = ((case res of Some e \<Rightarrow> Inl e | None \<Rightarrow> Inr (session e')), put_entry (env_id ev) e' m3)"
    using createSession_shape[of cfg m email ev cols rows repo path nm] by auto
  from spawnClaude_cases[OF sp]
  have s3: "sessions m3 = AList.update (env_id ev) (new_entry (new_session ev m email repo path nm)) (sessions m)"
    by (simp add: track_session_def put_entry_def)
  have other: "session_state_of (put_entry (env_id ev) e' m3) sid = session_state_of m sid" if "sid \<noteq> env_id ev"
  proof -
    have "session_state_of m3 sid = session_state_of m sid"
      unfolding session_state_of_def getSession_def s3 using that by (simp add: update_conv')
    then show ?thesis using that by (simp add: st_put_entry)
  qed
  show ?thesis
  proof (cases "sid = env_id ev")
    case True
    with assms(1) cr have "state (session e') = Running" by (simp add: st_put_entry)
    with spawnClaude_cases[OF sp] \<open>sid = env_id ev\<close> show ?thesis
      by (cases "env_spawn ev") auto
  next
    case False
    with other assms cr show ?thesis by simp
  qed
qed

lemma restartSession_running_only_on_spawn:
  assumes "session_state_of (snd (restartSession cfg ev m k)) sid = Some Running"
    and "session_state_of m sid \<noteq> Some Running"
  shows "env_spawn ev = SpawnOk \<and> k = sid"
proof (cases "map_of (sessions m) k")
  case None
  with assms show ?thesis by (simp add: restartSession_def)
next
  case (Some entry)
  define m1 where "m1 = (case pty entry of None \<Rightarrow> m | Some p \<Rightarrow> m\<lparr> killed := killed m @ [p] \<rparr>)"
  obtain res e' m2 where sp: "spawnClaude cfg ev None None (entry\<lparr> pty := None, outputBuffer := [] \<rparr>) m1 = (res, e', m2)"
    by (metis prod_cases3)
  have s1: "sessions m1 = sessions m" by (simp add: m1_def split: option.splits)
  have fin: "snd (restartSession cfg ev m k) = put_entry k e' m2"
    using Some sp unfolding restartSession_def Let_def m1_def by (simp split: option.splits)
  from spawnClaude_cases[OF sp] s1 have s2: "sessions m2 = sessions m" by simp
  show ?thesis
  proof (cases "sid = k")
    case True
    with assms(1) fin have "state (session e') = Running" by (simp add: st_put_entry)
    with spawnClaude_cases[OF sp] True show ?thesis
      by (cases "env_spawn ev") auto
  next
    case False
    with assms fin st_same[OF s2] show ?thesis by (simp add: st_put_entry)
  qed
qed

lemma step_other_nnr:
  assumes "\<And>ev a b c d f g. e \<noteq> EvCreate ev a b c d f g" "\<And>ev k. e \<noteq> EvRestart ev k"
  shows "no_new_running (step cfg m e) m"
proof (cases e)
  case (EvCreate ev a b c d f g)
  with assms(1) show ?thesis by blast
next
  case (EvRestart ev k)
  with assms(2) show ?thesis by blast
qed (simp_all add: terminateSession_def attachClient_nnr detachClient_nnr sendInput_nnr
      resize_nnr renameSession_nnr cleanupSession_nnr cleanupExpiredSessions_nnr pty_onData_nnr
      pty_onExit_nnr timer_fire_nnr)

lemma step_running_only_on_spawn:
  assumes "session_state_of (step cfg m e) sid = Some Running"
    and "session_state_of m sid \<noteq> Some Running"
  shows "spawning_event e sid"
proof -
  consider (create) ev a b c d f g where "e = EvCreate ev a b c d f g"
    | (restart) ev k where "e = EvRestart ev k"
    | (other) "\<And>ev a b c d f g. e \<noteq> EvCreate ev a b c d f g" "\<And>ev k. e \<noteq> EvRestart ev k"
    by blast
  then show ?thesis
  proof cases
    case create
    with assms createSession_running_only_on_spawn show ?thesis by simp
  next
    case restart
    with assms restartSession_running_only_on_spawn show ?thesis by simp
  next
    case other
    then have "no_new_running (step cfg m e) m" by (rule step_other_nnr)
    with assms show ?thesis by (simp add: no_new_running_def)
  qed
qed

section \<open>The state of a created session\<close>



lemma m_one_value:
  "m_one = \<lparr> sessions =
     [(''s1'',
       \<lparr>session =
          \<lparr>ClaudeSession.id = ''s1'', userEmail = ''u@x'',
             repoId = ''r/demo'', repoPath = ''/r/demo'',
             name = ''Session 1'', state = Running, createdAt = 1000,
             lastActivityAt = 1000, exitCode = None\<rparr>,
          pty = Some 0, outputBuffer = [], clients = [],
          disconnectedAt = None, cleanupTimeout = None\<rparr>)],
     userRepoSessions = [(''u@x:r/demo'', [''s1''])],
     spawned =
       [(0, ''s1'',
         \<lparr>sp_file = ''/bin/bash'', sp_args = [''-c'', ''exec claude''],
            sp_term = ''xterm-256color'', sp_cols = 80, sp_rows = 24,
            sp_cwd = ''/r/demo''\<rparr>)],
     killed = [], pty_written = [], pty_resized = [], timers = [],
     timer_seq = 0, outbox = []\<rparr>"
  by (simp add: m_one_def manager_defs Let_def show_nat.simps digit_char_def)

lemma m_attached_value:
  "m_attached = \<lparr> sessions =
     [(''s1'',
       \<lparr>session =
          \<lparr>ClaudeSession.id = ''s1'', userEmail = ''u@x'',
             repoId = ''r/demo'', repoPath = ''/r/demo'',
             name = ''Session 1'', state = Running, createdAt = 1000,
             lastActivityAt = 2000, exitCode = None\<rparr>,
          pty = Some 0, outputBuffer = [], clients = [''c1''],
          disconnectedAt = None, cleanupTimeout = None\<rparr>)],
     userRepoSessions = [(''u@x:r/demo'', [''s1''])],
     spawned =
       [(0, ''s1'',
         \<lparr>sp_file = ''/bin/bash'', sp_args = [''-c'', ''exec claude''],
            sp_term = ''xterm-256color'', sp_cols = 80, sp_rows = 24,
            sp_cwd = ''/r/demo''\<rparr>)],
     killed = [], pty_written = [], pty_resized = [], timers = [],
     timer_seq = 0, outbox = []\<rparr>"
  unfolding m_attached_def m_one_value
  by (simp add: manager_defs Let_def)

text \<open>
  C5, as stated, fails: the session that \<open>createSession\<close> returns is already in state
  \<open>running\<close>. Creating the first session of \<open>u@x\<close> on \<open>r/demo\<close> at 80 by 24, with a
  spawn that succeeds, returns a session whose state is \<open>running\<close>, not \<open>starting\<close>.
\<close>

theorem createSession_returns_running:
  "returned_state (fst (createSession cfg_default (env_at 1000 ''s1'') init_manager
       ''u@x'' ''r/demo'' ''/r/demo'' None (Some 80) (Some 24))) = Some Running
   \<and> returned_state (fst (createSession cfg_default (env_at 1000 ''s1'') init_manager
       ''u@x'' ''r/demo'' ''/r/demo'' None (Some 80) (Some 24))) \<noteq> Some Starting"
  by (simp add: returned_state_def manager_defs Let_def)

text \<open>
  C5, amended. For every successful call of \<open>createSession\<close> the session returned is in
  state \<open>running\<close>: \<open>spawnClaude\<close> sets it as soon as \<open>pty.spawn\<close> has returned,
  before \<open>createSession\<close> returns, and the manager holds that session under its id. The
  session object is in state \<open>starting\<close> only from its creation until then. Whatever
  happens to a manager, a session that was not \<open>running\<close> is \<open>running\<close> afterwards
  only if the event was a \<open>createSession\<close> or \<open>restartSession\<close> for it whose
  \<open>pty.spawn\<close> returned without throwing.
\<close>

theorem createSession_result_state:
  "(createSession cfg ev m email repo path nm cols rows = (Inr s, m') \<longrightarrow>
       state s = Running \<and> env_spawn ev = SpawnOk \<and> getSession m' (env_id ev) = Some s)
   \<and> state (new_session ev m email repo path nm) = Starting
   \<and> (session_state_of (step cfg m e) sid = Some Running \<and> session_state_of m sid \<noteq> Some Running
        \<longrightarrow> spawning_event e sid)"
proof (intro conjI impI)
  assume a: "createSession cfg ev m email repo path nm cols rows = (Inr s, m')"
  then have caps: "admits cfg m email"
    by (auto simp add: createSession_def admits_def split: if_splits)
  then obtain res e' m3 where
    sp: "spawnClaude cfg ev cols rows (new_entry (new_session ev m email repo path nm))
             (track_session (getUserRepoKey email repo) (env_id ev)
                (put_entry (env_id ev) (new_entry (new_session ev m email repo path nm)) m)) = (res, e', m3)"
    and cr: "createSession cfg ev m email repo path nm cols rows
               = ((case res of Some e \<Rightarrow> Inl e | None \<Rightarrow> Inr (session e')), put_entry (env_id ev) e' m3)"
    using createSession_shape[of cfg m email ev cols rows repo path nm] by auto
  from a cr have r: "res = None" "s = session e'" "m' = put_entry (env_id ev) e' m3"
    by (auto split: option.splits)
  from spawnClaude_cases[OF sp] r(1) have ok: "env_spawn ev = SpawnOk"
    by (cases "env_spawn ev") auto
  with spawnClaude_cases[OF sp] r(2) show "state s = Running" by simp
  from ok show "env_spawn ev = SpawnOk" .
  from r show "getSession m' (env_id ev) = Some s"
    by (simp add: getSession_def put_entry_def update_conv')
next
  show "state (new_session ev m email repo path nm) = Starting"
    by (simp add: new_session_def Let_def)
next
  assume "session_state_of (step cfg m e) sid = Some Running \<and> session_state_of m sid \<noteq> Some Running"
  then show "spawning_event e sid"
    using step_running_only_on_spawn by blast
qed

theorem createSession_result_state_witness:
  "createSession cfg_default (env_at 1000 ''s1'') init_manager ''u@x'' ''r/demo'' ''/r/demo'' None (Some 80) (Some 24)
     = (Inr \<lparr>ClaudeSession.id = ''s1'', userEmail = ''u@x'', repoId = ''r/demo'', repoPath = ''/r/demo'',
             name = ''Session 1'', state = Running, createdAt = 1000, lastActivityAt = 1000,
             exitCode = None\<rparr>, m_one)
   \<and> session_state_of (step cfg_default init_manager
          (EvCreate (env_at 1000 ''s1'') ''u@x'' ''r/demo'' ''/r/demo'' None (Some 80) (Some 24))) ''s1'' = Some Running
   \<and> session_state_of init_manager ''s1'' \<noteq> Some Running
   \<and> spawning_event (EvCreate (env_at 1000 ''s1'') ''u@x'' ''r/demo'' ''/r/demo'' None (Some 80) (Some 24)) ''s1''
   \<and> getSession m_one ''s1''
       = Some \<lparr>ClaudeSession.id = ''s1'', userEmail = ''u@x'', repoId = ''r/demo'', repoPath = ''/r/demo'',
             name = ''Session 1'', state = Running, createdAt = 1000, lastActivityAt = 1000,
             exitCode = None\<rparr>"
proof -
  have h1: "createSession cfg_default (env_at 1000 ''s1'') init_manager ''u@x'' ''r/demo'' ''/r/demo'' None (Some 80) (Some 24)
     = (Inr \<lparr>ClaudeSession.id = ''s1'', userEmail = ''u@x'', repoId = ''r/demo'', repoPath = ''/r/demo'',
             name = ''Session 1'', state = Running, createdAt = 1000, lastActivityAt = 1000,
             exitCode = None\<rparr>, m_one)"
    unfolding m_one_value by (simp add: manager_defs Let_def show_nat.simps digit_char_def)
  have h2: "session_state_of (step cfg_default init_manager
          (EvCreate (env_at 1000 ''s1'') ''u@x'' ''r/demo'' ''/r/demo'' None (Some 80) (Some 24))) ''s1'' = Some Running"
    unfolding step.simps h1 m_one_value by (simp add: session_state_of_def getSession_def)
  have h3: "session_state_of init_manager ''s1'' \<noteq> Some Running"
    by (simp add: session_state_of_def getSession_def init_manager_def)
  show ?thesis
    using h1 h2 h3
      createSession_result_state[of cfg_default "env_at 1000 ''s1''" init_manager "''u@x''" "''r/demo''"
        "''/r/demo''" None "Some 80" "Some 24" _ m_one
        "EvCreate (env_at 1000 ''s1'') ''u@x'' ''r/demo'' ''/r/demo'' None (Some 80) (Some 24)" "''s1''"]
    by (simp add: env_at_def)
qed

section \<open>Restarting a session\<close>


text \<open>
  C6, as stated, fails on the size and on the state. The session of \<open>u@x\<close> was created at
  80 by 24; restarting it spawns the new PTY at 120 by 30, and the session is \<open>running\<close>
  when \<open>restartSession\<close> returns, not \<open>starting\<close>.
\<close>

theorem restart_uses_default_size:
  "spawn_sizes m_attached = [(80, 24)]
   \<and> spawn_sizes (snd (restartSession cfg_default (env_at 5000 ''-'') m_attached ''s1'')) = [(80, 24), (120, 30)]
   \<and> session_state_of (snd (restartSession cfg_default (env_at 5000 ''-'') m_attached ''s1'')) ''s1'' = Some Running
   \<and> session_state_of (snd (restartSession cfg_default (env_at 5000 ''-'') m_attached ''s1'')) ''s1'' \<noteq> Some Starting"
  unfolding m_attached_value
  by (simp add: spawn_sizes_def session_state_of_def manager_defs Let_def)

text \<open>
  C6, amended. For every session with a PTY, \<open>restartSession\<close> kills that PTY, empties the
  replay buffer, and spawns a new PTY in the same working directory at the default size of
  120 columns by 30 rows (no size is recorded anywhere); the client set is kept as it was and
  every client in it is sent \<open>status(running)\<close>. When \<open>pty.spawn\<close> returns the session
  is \<open>running\<close> and is returned; when it throws, the session is left \<open>exited\<close> with
  exit code 1, without a PTY, and the error is thrown on.
\<close>

theorem restartSession_effects:
  "(map_of (sessions m) sid = Some entry \<and> pty entry = Some p \<and> env_spawn ev = SpawnOk \<longrightarrow>
      restartSession cfg ev m sid =
        (Inr (Some ((session entry)\<lparr> state := Running \<rparr>)),
         m\<lparr> killed := killed m @ [p],
            spawned := spawned m @ [(length (spawned m), id (session entry),
                                     default_spawn_req cfg (repoPath (session entry)))],
            outbox := outbox m @ map (\<lambda>c. (c, Status Running None None None)) (clients entry),
            sessions := AList.update sid
               (entry\<lparr> outputBuffer := [], pty := Some (length (spawned m)),
                       session := (session entry)\<lparr> state := Running \<rparr> \<rparr>) (sessions m) \<rparr>))
   \<and> (map_of (sessions m) sid = Some entry \<and> pty entry = Some p \<and> env_spawn ev = SpawnThrows x \<longrightarrow>
      restartSession cfg ev m sid =
        (Inl x,
         m\<lparr> killed := killed m @ [p],
            sessions := AList.update sid
               (entry\<lparr> pty := None, outputBuffer := [],
                       session := (session entry)\<lparr> state := Exited, exitCode := Some 1 \<rparr> \<rparr>) (sessions m) \<rparr>))"
  by (simp add: restartSession_def spawnClaude_def Let_def send_all_def put_entry_def default_spawn_req_def)

theorem restartSession_effects_witness:
  "map_of (sessions m_attached) ''s1'' =
      Some \<lparr>session =
          \<lparr>ClaudeSession.id = ''s1'', userEmail = ''u@x'',
             repoId = ''r/demo'', repoPath = ''/r/demo'',
             name = ''Session 1'', state = Running, createdAt = 1000,
             lastActivityAt = 2000, exitCode = None\<rparr>,
          pty = Some 0, outputBuffer = [], clients = [''c1''],
          disconnectedAt = None, cleanupTimeout = None\<rparr>
   \<and> killed (snd (restartSession cfg_default (env_at 5000 ''-'') m_attached ''s1'')) = [0]
   \<and> map snd (spawned (snd (restartSession cfg_default (env_at 5000 ''-'') m_attached ''s1'')))
       = [(''s1'', (default_spawn_req cfg_default ''/r/demo'')\<lparr> sp_cols := 80, sp_rows := 24 \<rparr>),
          (''s1'', default_spawn_req cfg_default ''/r/demo'')]
   \<and> outbox (snd (restartSession cfg_default (env_at 5000 ''-'') m_attached ''s1''))
       = [(''c1'', Status Running None None None)]
   \<and> fst (restartSession cfg_default (env_fail 5000 ''-'') m_attached ''s1'') = Inl (Error ''spawn failed'')
   \<and> session_state_of (snd (restartSession cfg_default (env_fail 5000 ''-'') m_attached ''s1'')) ''s1''
       = Some Exited"
proof -
  let ?entry = "\<lparr>session =
          \<lparr>ClaudeSession.id = ''s1'', userEmail = ''u@x'',
             repoId = ''r/demo'', repoPath = ''/r/demo'',
             name = ''Session 1'', state = Running, createdAt = 1000,
             lastActivityAt = 2000, exitCode = None\<rparr>,
          pty = Some 0, outputBuffer = [], clients = [''c1''],
          disconnectedAt = None, cleanupTimeout = None\<rparr>"
  have h1: "map_of (sessions m_attached) ''s1'' = Some ?entry"
    unfolding m_attached_value by simp
  have h2: "pty ?entry = Some 0" by simp
  have h3: "env_spawn (env_at 5000 ''-'') = SpawnOk" by (simp add: env_at_def)
  have h4: "env_spawn (env_fail 5000 ''-'') = SpawnThrows (Error ''spawn failed'')"
    by (simp add: env_fail_def)
  show ?thesis
    using h1 h2 h3 h4
      restartSession_effects[of m_attached "''s1''" ?entry 0 "env_at 5000 ''-''" cfg_default]
      restartSession_effects[of m_attached "''s1''" ?entry 0 "env_fail 5000 ''-''" cfg_default
        "Error ''spawn failed''"]
    by (simp add: m_attached_value default_spawn_req_def cfg_default_def session_state_of_def getSession_def)
qed

section \<open>When the PTY exits\<close>

text \<open>
  C7, as stated, fails on the removal. After the PTY of the session of \<open>u@x\<close> exits with
  code 0, the attached client has been sent the exit status, and \<open>getSession\<close> and
  \<open>listSessions\<close> still show the session, in state \<open>exited\<close>.
\<close>

theorem exited_session_stays_indexed:
  "getSession (pty_onExit m_attached 0 0 None) ''s1''
     = Some \<lparr>ClaudeSession.id = ''s1'', userEmail = ''u@x'', repoId = ''r/demo'', repoPath = ''/r/demo'',
             name = ''Session 1'', state = Exited, createdAt = 1000, lastActivityAt = 2000,
             exitCode = Some 0\<rparr>
   \<and> map tab_id (listSessions (pty_onExit m_attached 0 0 None) ''u@x'' ''r/demo'') = [''s1'']
   \<and> outbox (pty_onExit m_attached 0 0 None) = [(''c1'', Status Exited (Some ''Claude exited with code 0'') None None)]"
  unfolding m_attached_value
  by (simp add: listSessions_def manager_defs Let_def exit_message_def show_int_def show_nat.simps digit_char_def)

text \<open>
  C7, amended. When the PTY of a session in the index exits, the session enters state
  \<open>exited\<close> with the exit code and without a PTY, and every attached client is sent
  \<open>status(exited)\<close> with the exit message. The session stays in the index under the same
  key (it can still be restarted); it leaves the index when \<open>cleanupSession\<close> runs for it
  (termination, the reap timer, the sweeper).
\<close>

lemma map_fst_update_present: "map_of al k = Some v0 \<Longrightarrow> map fst (AList.update k v al) = map fst al"
  by (induction al) (auto split: if_splits)

theorem pty_exit_effects:
  "pty_owner m p = Some sid \<and> map_of (sessions m) sid = Some entry \<longrightarrow>
      pty_onExit m p code signal =
        m\<lparr> sessions := AList.update sid
               (entry\<lparr> pty := None, session := (session entry)\<lparr> state := Exited, exitCode := Some code \<rparr> \<rparr>)
               (sessions m),
           outbox := outbox m @ map (\<lambda>c. (c, Status Exited (Some (exit_message code signal)) None None))
                                    (clients entry) \<rparr>
      \<and> getSession (pty_onExit m p code signal) sid
           = Some ((session entry)\<lparr> state := Exited, exitCode := Some code \<rparr>)
      \<and> map fst (sessions (pty_onExit m p code signal)) = map fst (sessions m)
      \<and> getSession (snd (cleanupSession (pty_onExit m p code signal) sid)) sid = None"
proof (intro impI)
  assume a: "pty_owner m p = Some sid \<and> map_of (sessions m) sid = Some entry"
  let ?e = "entry\<lparr> pty := None, session := (session entry)\<lparr> state := Exited, exitCode := Some code \<rparr> \<rparr>"
  have eq: "pty_onExit m p code signal =
        m\<lparr> sessions := AList.update sid ?e (sessions m),
           outbox := outbox m @ map (\<lambda>c. (c, Status Exited (Some (exit_message code signal)) None None))
                                    (clients entry) \<rparr>"
    using a by (simp add: pty_onExit_def Let_def send_all_def put_entry_def)
  have g: "getSession (pty_onExit m p code signal) sid = Some ((session entry)\<lparr> state := Exited, exitCode := Some code \<rparr>)"
    unfolding eq by (simp add: getSession_def update_conv')
  have k: "map fst (sessions (pty_onExit m p code signal)) = map fst (sessions m)"
    unfolding eq using a by (simp add: map_fst_update_present)
  have c: "getSession (snd (cleanupSession (pty_onExit m p code signal) sid)) sid = None"
    unfolding getSession_def cleanupSession_sessions by (simp add: delete_conv')
  from eq g k c show "pty_onExit m p code signal =
        m\<lparr> sessions := AList.update sid ?e (sessions m),
           outbox := outbox m @ map (\<lambda>c. (c, Status Exited (Some (exit_message code signal)) None None))
                                    (clients entry) \<rparr>
      \<and> getSession (pty_onExit m p code signal) sid
           = Some ((session entry)\<lparr> state := Exited, exitCode := Some code \<rparr>)
      \<and> map fst (sessions (pty_onExit m p code signal)) = map fst (sessions m)
      \<and> getSession (snd (cleanupSession (pty_onExit m p code signal) sid)) sid = None"
    by blast
qed

theorem pty_exit_effects_witness:
  "pty_owner m_attached 0 = Some ''s1''
   \<and> map_option clients (map_of (sessions m_attached) ''s1'') = Some [''c1'']
   \<and> outbox (pty_onExit m_attached 0 0 None)
        = [(''c1'', Status Exited (Some (exit_message 0 None)) None None)]
   \<and> map fst (sessions (pty_onExit m_attached 0 0 None)) = [''s1'']
   \<and> map_option state (getSession (pty_onExit m_attached 0 0 None) ''s1'') = Some Exited
   \<and> getSession (snd (cleanupSession (pty_onExit m_attached 0 0 None) ''s1'')) ''s1'' = None"
proof -
  let ?entry = "\<lparr>session =
          \<lparr>ClaudeSession.id = ''s1'', userEmail = ''u@x'',
             repoId = ''r/demo'', repoPath = ''/r/demo'',
             name = ''Session 1'', state = Running, createdAt = 1000,
             lastActivityAt = 2000, exitCode = None\<rparr>,
          pty = Some 0, outputBuffer = [], clients = [''c1''],
          disconnectedAt = None, cleanupTimeout = None\<rparr>"
  have h1: "map_of (sessions m_attached) ''s1'' = Some ?entry"
    unfolding m_attached_value by simp
  have h2: "pty_owner m_attached 0 = Some ''s1''"
    unfolding m_attached_value by (simp add: pty_owner_def)
  have h3: "outbox m_attached = []" "map fst (sessions m_attached) = [''s1'']"
    unfolding m_attached_value by simp_all
  note T = pty_exit_effects[of m_attached 0 "''s1''" ?entry 0 None, rule_format, OF conjI[OF h2 h1]]
  have o: "outbox (pty_onExit m_attached 0 0 None)
        = [(''c1'', Status Exited (Some (exit_message 0 None)) None None)]"
    by (subst conjunct1[OF T]) (simp add: h3)
  have k: "map fst (sessions (pty_onExit m_attached 0 0 None)) = [''s1'']"
    using conjunct1[OF conjunct2[OF conjunct2[OF T]]] h3 by simp
  have g: "map_option state (getSession (pty_onExit m_attached 0 0 None) ''s1'') = Some Exited"
    by (simp add: conjunct1[OF conjunct2[OF T]])
  have c: "getSession (snd (cleanupSession (pty_onExit m_attached 0 0 None) ''s1'')) ''s1'' = None"
    by (rule conjunct2[OF conjunct2[OF conjunct2[OF T]]])
  have cl: "map_option clients (map_of (sessions m_attached) ''s1'') = Some [''c1'']"
    by (simp add: h1)
  from h2 cl o k g c show ?thesis by blast
qed

section \<open>Detaching twice\<close>

text \<open>
  C9. The session of \<open>u@x\<close> has the single client \<open>c1\<close>. Detaching \<open>c1\<close> at time 3000
  leaves one pending reap timer and \<open>disconnectedAt = 3000\<close>. Detaching \<open>c1\<close> again at time
  4000 stamps \<open>disconnectedAt = 4000\<close> and arms a second timer without cancelling the first
  (also when the second call comes at the same instant). A client that attaches afterwards
  cancels only the second timer; when the first fires the session is removed although a
  client is attached.
\<close>

theorem detach_twice_arms_second_timer:
  "timers (detachClient cfg_default (env_at 3000 ''-'') m_attached ''s1'' ''c1'') = [(0, 1203000, ''s1'')]
   \<and> timers (detachClient cfg_default (env_at 4000 ''-'')
               (detachClient cfg_default (env_at 3000 ''-'') m_attached ''s1'' ''c1'') ''s1'' ''c1'')
        = [(0, 1203000, ''s1''), (1, 1204000, ''s1'')]
   \<and> map_option disconnectedAt (map_of (sessions
          (detachClient cfg_default (env_at 3000 ''-'') m_attached ''s1'' ''c1'')) ''s1'')
        = Some (Some 3000)
   \<and> map_option disconnectedAt (map_of (sessions (detachClient cfg_default (env_at 4000 ''-'')
               (detachClient cfg_default (env_at 3000 ''-'') m_attached ''s1'' ''c1'') ''s1'' ''c1'')) ''s1'')
        = Some (Some 4000)
   \<and> timers (detachClient cfg_default (env_at 3000 ''-'')
               (detachClient cfg_default (env_at 3000 ''-'') m_attached ''s1'' ''c1'') ''s1'' ''c1'')
        = [(0, 1203000, ''s1''), (1, 1203000, ''s1'')]
   \<and> timers (snd (attachClient (env_at 5000 ''-'') (detachClient cfg_default (env_at 4000 ''-'')
               (detachClient cfg_default (env_at 3000 ''-'') m_attached ''s1'' ''c1'') ''s1'' ''c1'') ''s1'' ''c2''))
        = [(0, 1203000, ''s1'')]
   \<and> getSession (timer_fire (snd (attachClient (env_at 5000 ''-'') (detachClient cfg_default (env_at 4000 ''-'')
               (detachClient cfg_default (env_at 3000 ''-'') m_attached ''s1'' ''c1'') ''s1'' ''c1'') ''s1'' ''c2'')) 0) ''s1''
        = None"
  unfolding m_attached_value
  by (simp add: manager_defs Let_def)

section \<open>Error frames on the terminal WebSocket\<close>

text \<open>
  C8, as stated, fails for \<open>resize\<close>: a well-formed resize frame from a client that has not
  attached is answered with no frame at all.
\<close>

theorem resize_before_attach_is_silent:
  "\<not> malformed (frame_of ''resize'' [(''cols'', JNum 80), (''rows'', JNum 24)])
   \<and> truthy (currentSessionId conn_fresh) = None
   \<and> on_message cfg_default (env_at 1 ''s9'') conn_fresh m_one
        (frame_of ''resize'' [(''cols'', JNum 80), (''rows'', JNum 24)])
     = ([], conn_fresh\<lparr> isAlive := True \<rparr>, m_one)"
  by (simp add: malformed_def frame_of_def clientMessageSchema_def z_required_def z_number_def
      on_message_def handle_message_def truthy_def conn_fresh_def)

text \<open>
  C8, amended. A malformed frame (text that is not JSON, or JSON that the frame schema
  rejects) is answered on an open socket with exactly one error frame, \<open>Invalid message
  format\<close>, and the handler leaves the socket and the sessions as they were. From a client
  that has not attached, an \<open>input\<close> or a \<open>restart\<close> frame is answered with exactly one
  error frame, \<open>Not attached to session\<close>; a \<open>resize\<close> frame is dropped without any
  answer.
\<close>

theorem ws_error_frames:
  "(malformed f \<longrightarrow>
      on_message cfg ev conn m f
        = (if sock_open conn then [ErrorMsg ''Invalid message format''] else [], conn\<lparr> isAlive := True \<rparr>, m)
      \<and> sock_open (fst (snd (on_message cfg ev conn m f))) = sock_open conn)
   \<and> (truthy (currentSessionId conn) = None \<and> clientMessageSchema j = Some (Input d) \<longrightarrow>
      on_message cfg ev conn m (Json j)
        = (if sock_open conn then [ErrorMsg ''Not attached to session''] else [], conn\<lparr> isAlive := True \<rparr>, m))
   \<and> (truthy (currentSessionId conn) = None \<and> clientMessageSchema j = Some Restart \<longrightarrow>
      on_message cfg ev conn m (Json j)
        = (if sock_open conn then [ErrorMsg ''Not attached to session''] else [], conn\<lparr> isAlive := True \<rparr>, m))
   \<and> (truthy (currentSessionId conn) = None \<and> clientMessageSchema j = Some (Resize c r) \<longrightarrow>
      on_message cfg ev conn m (Json j) = ([], conn\<lparr> isAlive := True \<rparr>, m))"
  by (auto simp add: malformed_def on_message_def handle_message_def sendMessage_def Let_def
      split: frame.splits)

theorem ws_error_frames_witness:
  "malformed (frame_of ''resize'' [(''cols'', JNum 0), (''rows'', JNum 24)])
   \<and> malformed NotJson
   \<and> on_message cfg_default (env_at 1 ''s9'') conn_fresh m_one
         (frame_of ''resize'' [(''cols'', JNum 0), (''rows'', JNum 24)])
       = ([ErrorMsg ''Invalid message format''], conn_fresh\<lparr> isAlive := True \<rparr>, m_one)
   \<and> on_message cfg_default (env_at 1 ''s9'') conn_fresh m_one NotJson
       = ([ErrorMsg ''Invalid message format''], conn_fresh\<lparr> isAlive := True \<rparr>, m_one)
   \<and> truthy (currentSessionId conn_fresh) = None
   \<and> clientMessageSchema (JObj [(''type'', JStr ''input''), (''data'', JStr ''ls'')]) = Some (Input ''ls'')
   \<and> on_message cfg_default (env_at 1 ''s9'') conn_fresh m_one
         (Json (JObj [(''type'', JStr ''input''), (''data'', JStr ''ls'')]))
       = ([ErrorMsg ''Not attached to session''], conn_fresh\<lparr> isAlive := True \<rparr>, m_one)
   \<and> clientMessageSchema (JObj [(''type'', JStr ''restart'')]) = Some Restart
   \<and> on_message cfg_default (env_at 1 ''s9'') conn_fresh m_one (Json (JObj [(''type'', JStr ''restart'')]))
       = ([ErrorMsg ''Not attached to session''], conn_fresh\<lparr> isAlive := True \<rparr>, m_one)
   \<and> clientMessageSchema (JObj [(''type'', JStr ''resize''), (''cols'', JNum 80), (''rows'', JNum 24)])
       = Some (Resize 80 24)
   \<and> on_message cfg_default (env_at 1 ''s9'') conn_fresh m_one
         (Json (JObj [(''type'', JStr ''resize''), (''cols'', JNum 80), (''rows'', JNum 24)]))
       = ([], conn_fresh\<lparr> isAlive := True \<rparr>, m_one)"
proof -
  have h0: "malformed (frame_of ''resize'' [(''cols'', JNum 0), (''rows'', JNum 24)])" "malformed NotJson"
    by (simp_all add: malformed_def frame_of_def clientMessageSchema_def z_required_def z_number_def)
  have h1: "truthy (currentSessionId conn_fresh) = None" "sock_open conn_fresh"
    by (simp_all add: truthy_def conn_fresh_def)
  have h2: "clientMessageSchema (JObj [(''type'', JStr ''input''), (''data'', JStr ''ls'')]) = Some (Input ''ls'')"
    by (simp add: clientMessageSchema_def z_required_def z_string_def)
  have h3: "clientMessageSchema (JObj [(''type'', JStr ''restart'')]) = Some Restart"
    by (simp add: clientMessageSchema_def)
  have h4: "clientMessageSchema (JObj [(''type'', JStr ''resize''), (''cols'', JNum 80), (''rows'', JNum 24)])
       = Some (Resize 80 24)"
    by (simp add: clientMessageSchema_def z_required_def z_number_def)
  show ?thesis
    using h0 h1 h2 h3 h4
      ws_error_frames[of "frame_of ''resize'' [(''cols'', JNum 0), (''rows'', JNum 24)]" cfg_default
        "env_at 1 ''s9''" conn_fresh m_one "JObj [(''type'', JStr ''input''), (''data'', JStr ''ls'')]" "''ls''"]
      ws_error_frames[of NotJson cfg_default
        "env_at 1 ''s9''" conn_fresh m_one "JObj [(''type'', JStr ''restart'')]"]
      ws_error_frames[of NotJson cfg_default "env_at 1 ''s9''" conn_fresh m_one
        "JObj [(''type'', JStr ''resize''), (''cols'', JNum 80), (''rows'', JNum 24)]" _ 80 24]
    by simp
qed

section \<open>Path safety of file reads\<close>


lemma split_on_first_rest:
  "split_on d s = w # ws \<Longrightarrow> prefix w s \<and> (\<forall>x \<in> set ws. str_includes s (d # x))"
proof (induction s arbitrary: w ws)
  case Nil
  then show ?case by simp
next
  case (Cons c cs)
  obtain w' ws' where sp: "split_on d cs = w' # ws'"
    by (cases "split_on d cs") (auto simp: neq_Nil_conv, cases cs, auto split: if_splits list.splits)
  from Cons.IH[OF sp] have ih: "prefix w' cs" "\<forall>x \<in> set ws'. str_includes cs (d # x)" by simp_all
  show ?case
  proof (cases "c = d")
    case True
    with Cons.prems sp have "w = []" "ws = w' # ws'" by simp_all
    with ih True show ?thesis by auto
  next
    case False
    with Cons.prems sp have "w = c # w'" "ws = ws'" by simp_all
    with ih show ?thesis by auto
  qed
qed

lemma dotdot_segment_visible:
  assumes "''..'' \<in> set (split_on CHR ''/'' n)"
  shows "prefix ''..'' n \<or> str_includes n ''/..''"
proof -
  obtain w ws where sp: "split_on CHR ''/'' n = w # ws"
    by (cases "split_on CHR ''/'' n") (use assms in auto)
  from split_on_first_rest[OF sp] assms sp show ?thesis by auto
qed

text \<open>
  What the lexical check does establish: the empty path, an absolute path, and a path whose
  normal form has a \<open>..\<close> segment or starts with a separator are all refused with a
  path-security error, and \<open>readFile\<close> passes that error on.
\<close>

lemma validateRelativePath_lexical:
  assumes "p = [] \<or> isAbsolute p \<or> prefix ''/'' p \<or> ''..'' \<in> set (split_on CHR ''/'' (normalize p))
           \<or> prefix ''/'' (normalize p) \<or> prefix [CHR 0x5C] (normalize p)"
  shows "\<exists>msg. validateRelativePath p = Some (PathSecurityError msg)"
  using assms dotdot_segment_visible[of "normalize p"]
  by (auto simp add: validateRelativePath_def isAbsolute_def Let_def)

lemma readFile_rejects_invalid:
  "validateRelativePath p = Some e \<Longrightarrow> readFile cfg fs repo p = Inl e"
  by (simp add: readFile_def resolveFilePath_def)

text \<open>
  What the containment check does establish: the text of the repository path is a prefix of
  the text of the resolved path.
\<close>

lemma resolveFilePath_prefix:
  "resolveFilePath fs repo p = Inr r \<Longrightarrow> prefix (normalize repo) (normalize r)"
  by (auto simp add: resolveFilePath_def Let_def split: option.splits sum.splits if_splits)

text \<open>
  C1. A path whose real path is not under the repository must be refused by \<open>readFile\<close>
  with a path-security error. Here it is not: the repository is \<open>/r/demo\<close>, the link
  \<open>/r/demo/evil\<close> points to the directory \<open>/r/demo2\<close> beside it, and the relative path
  \<open>evil/passwd\<close> passes the lexical check; its real path \<open>/r/demo2/passwd\<close> is not under
  \<open>/r/demo\<close>, yet begins with the same characters, and \<open>readFile\<close> returns the contents
  of the file.
\<close>

theorem readFile_follows_link_to_sibling:
  "validateRelativePath ''evil/passwd'' = None
   \<and> fs_realpath fs_sibling ''/r/demo'' = Inr ''/r/demo''
   \<and> fs_realpath fs_sibling (join [''/r/demo'', ''evil/passwd'']) = Inr ''/r/demo2/passwd''
   \<and> \<not> path_under ''/r/demo'' ''/r/demo2/passwd''
   \<and> readFile cfg_default fs_sibling ''/r/demo'' ''evil/passwd'' = Inr (''evil/passwd'', utf16_of ''secret'')"
  by (simp add: fs_sibling_def path_under_def path_defs fs_defs utf_defs Let_def cfg_default_def)

text \<open>
  A link out to \<open>/etc\<close> and a path with \<open>..\<close> are refused, as the two scenarios of the
  specification say.
\<close>

lemma readFile_spec_scenarios:
  "readFile cfg_default fs_etc ''/r/demo'' ''../../etc/passwd''
     = Inl (PathSecurityError ''Path traversal (..) is not allowed'')
   \<and> readFile cfg_default fs_etc ''/r/demo'' ''evil/passwd''
     = Inl (PathSecurityError ''Path escapes repository boundary (symlink detected)'')"
  by (simp add: fs_etc_def path_defs fs_defs Let_def cfg_default_def)

section \<open>Writing a file and reading it back\<close>


subsection \<open>UTF-8 decoding undoes encoding of well-formed text\<close>

lemma mod64_lt: "0x80 + (n::nat) mod 0x40 < 256"
proof -
  have "n mod 0x40 < 0x40" by simp
  then show ?thesis by linarith
qed

lemma utf8_bytes_lt:
  assumes "cp < 0x110000" "b \<in> set (utf8_bytes cp)"
  shows "b < 256"
proof -
  consider "cp < 0x80" | "\<not> cp < 0x80" "cp < 0x800" | "\<not> cp < 0x800" "cp < 0x10000" | "\<not> cp < 0x10000"
    by blast
  then show ?thesis
  proof cases
    case 1
    with assms(2) show ?thesis by (simp add: utf8_bytes_def)
  next
    case 2
    then have "cp div 0x40 < 0x20" by (simp add: div_less_iff_less_mult)
    then have "0xC0 + cp div 0x40 < 256" by linarith
    with assms(2) 2 mod64_lt[of cp] show ?thesis by (auto simp add: utf8_bytes_def)
  next
    case 3
    then have "cp div 0x1000 < 0x10" by (simp add: div_less_iff_less_mult)
    then have "0xE0 + cp div 0x1000 < 256" by linarith
    with assms(2) 3 mod64_lt[of cp] mod64_lt[of "cp div 0x40"] show ?thesis
      by (auto simp add: utf8_bytes_def)
  next
    case 4
    from assms(1) have "cp div 0x40000 < 5" by (simp add: div_less_iff_less_mult)
    then have "0xF0 + cp div 0x40000 < 256" by linarith
    with assms(2) 4 mod64_lt[of cp] mod64_lt[of "cp div 0x40"] mod64_lt[of "cp div 0x1000"] show ?thesis
      by (auto simp add: utf8_bytes_def)
  qed
qed

lemma lead2: "q < 0x20 \<Longrightarrow> (0xC0 + q) mod 0x20 = (q::nat)"
proof -
  assume q: "q < 0x20"
  have "(0xC0 + q) mod 0x20 = (0x20 * 6 + q) mod 0x20" by simp
  also have "\<dots> = q mod 0x20" by (rule mod_mult_self4)
  finally show ?thesis using q by simp
qed

lemma lead3: "q < 0x10 \<Longrightarrow> (0xE0 + q) mod 0x10 = (q::nat)"
proof -
  assume q: "q < 0x10"
  have "(0xE0 + q) mod 0x10 = (0x10 * 14 + q) mod 0x10" by simp
  also have "\<dots> = q mod 0x10" by (rule mod_mult_self4)
  finally show ?thesis using q by simp
qed

lemma lead4: "q < 8 \<Longrightarrow> (0xF0 + q) mod 8 = (q::nat)"
proof -
  assume q: "q < 8"
  have "(0xF0 + q) mod 8 = (8 * 30 + q) mod 8" by simp
  also have "\<dots> = q mod 8" by (rule mod_mult_self4)
  finally show ?thesis using q by simp
qed

lemma cont6: "(0x80 + r mod 0x40) mod 0x40 = (r::nat) mod 0x40"
proof -
  have "(0x80 + r mod 0x40) mod 0x40 = (0x40 * 2 + r mod 0x40) mod 0x40" by simp
  also have "\<dots> = r mod 0x40 mod 0x40" by (rule mod_mult_self4)
  finally show ?thesis by simp
qed

lemma div_4096: "(cp::nat) div 0x1000 = cp div 0x40 div 0x40" by (simp add: div_mult2_eq[symmetric])
lemma div_262144: "(cp::nat) div 0x40000 = cp div 0x40 div 0x40 div 0x40" by (simp add: div_mult2_eq[symmetric])

lemma div64_range:
  "(lo * 0x40 :: nat) \<le> cp \<Longrightarrow> cp < hi * 0x40 \<Longrightarrow> lo \<le> cp div 0x40 \<and> cp div 0x40 < hi"
  by (simp only: less_eq_div_iff_mult_less_eq div_less_iff_less_mult zero_less_numeral)

lemma split64: "(q::nat) = q div 0x40 * 0x40 + q mod 0x40"
  by simp

lemma lo3: "(0x20::nat) \<le> q \<Longrightarrow> q div 0x40 = 0 \<Longrightarrow> 0x20 \<le> q mod 0x40"
  using split64[of q] by simp

lemma hi3: "(q::nat) < 0x360 \<or> 0x380 \<le> q \<Longrightarrow> q div 0x40 = 13 \<Longrightarrow> q mod 0x40 < 0x20"
proof -
  assume a: "q < 0x360 \<or> 0x380 \<le> q" and d: "q div 0x40 = 13"
  from split64[of q] d have q: "q = 0x340 + q mod 0x40" by simp
  have "q mod 0x40 < 0x40" by simp
  with a q show ?thesis by linarith
qed

lemma lo4: "(0x10::nat) \<le> p \<Longrightarrow> p div 0x40 = 0 \<Longrightarrow> 0x10 \<le> p mod 0x40"
  using split64[of p] by simp

lemma hi4: "(p::nat) < 0x110 \<Longrightarrow> p div 0x40 = 4 \<Longrightarrow> p mod 0x40 < 0x10"
proof -
  assume a: "p < 0x110" and d: "p div 0x40 = 4"
  from split64[of p] d have "p = 0x100 + p mod 0x40" by simp
  with a show ?thesis by linarith
qed

lemma top4: "(p::nat) < 0x110 \<Longrightarrow> p div 0x40 < 5"
  by (simp add: div_less_iff_less_mult)

lemma top3: "(q::nat) < 0x400 \<Longrightarrow> q div 0x40 < 0x10"
  by (simp add: div_less_iff_less_mult)

lemma decoder_one:
  assumes "cp < 0x80"
  shows "utf8_decoder 0 0 0x80 0xBF (utf8_bytes cp @ rest) = cp # utf8_decoder 0 0 0x80 0xBF rest"
  using assms by (simp add: utf8_bytes_def utf8_decoder.simps)

lemma decoder_two:
  assumes "0x80 \<le> cp" "cp < 0x800"
  shows "utf8_decoder 0 0 0x80 0xBF (utf8_bytes cp @ rest) = cp # utf8_decoder 0 0 0x80 0xBF rest"
proof -
  define q where "q = cp div 0x40"
  define r where "r = cp mod 0x40"
  define b1 where "b1 = 0xC0 + q"
  define b2 where "b2 = 0x80 + r"
  have cp: "q * 0x40 + r = cp" by (simp add: q_def r_def)
  from div64_range[of 2 cp "0x20"] assms have q: "2 \<le> q" "q < 0x20" by (simp_all add: q_def)
  have rr: "r < 0x40" by (simp add: r_def)
  have b: "utf8_bytes cp = [b1, b2]"
    using assms by (simp add: utf8_bytes_def q_def r_def b1_def b2_def)
  have r1: "\<not> b1 < 0x80" "0xC2 \<le> b1" "b1 \<le> 0xDF" using q unfolding b1_def by linarith+
  have r2: "0x80 \<le> b2" "b2 \<le> 0xBF" using rr unfolding b2_def by linarith+
  have "utf8_decoder 0 0 0x80 0xBF ([b1, b2] @ rest)
          = (b1 mod 0x20 * 0x40 + b2 mod 0x40) # utf8_decoder 0 0 0x80 0xBF rest"
    using r1 r2 by (simp add: utf8_decoder.simps)
  moreover have "b1 mod 0x20 * 0x40 + b2 mod 0x40 = cp"
    unfolding b1_def b2_def lead2[OF q(2)] r_def cont6 using cp unfolding r_def .
  ultimately show ?thesis unfolding b by simp
qed

lemma decoder_three:
  assumes "0x800 \<le> cp" "cp < 0x10000" "cp < 0xD800 \<or> 0xE000 \<le> cp"
  shows "utf8_decoder 0 0 0x80 0xBF (utf8_bytes cp @ rest) = cp # utf8_decoder 0 0 0x80 0xBF rest"
proof -
  define q where "q = cp div 0x40"
  define r where "r = cp mod 0x40"
  define q2 where "q2 = q div 0x40"
  define r2 where "r2 = q mod 0x40"
  define b1 where "b1 = 0xE0 + q2"
  define b2 where "b2 = 0x80 + r2"
  define b3 where "b3 = 0x80 + r"
  have cp: "(q2 * 0x40 + r2) * 0x40 + r = cp" by (simp add: q_def r_def q2_def r2_def)
  from div64_range[of "0x20" cp "0x400"] assms have q: "0x20 \<le> q" "q < 0x400" by (simp_all add: q_def)
  from q(2) have q2: "q2 < 0x10" unfolding q2_def by (rule top3)
  have sur: "q < 0x360 \<or> 0x380 \<le> q"
    using assms(3) div64_range[of 0 cp "0x360"] div64_range[of "0x380" cp "0x400"] assms(2)
    by (auto simp add: q_def)
  have lo: "q2 = 0 \<Longrightarrow> 0x20 \<le> r2" unfolding q2_def r2_def by (rule lo3[OF q(1)])
  have hi: "q2 = 13 \<Longrightarrow> r2 < 0x20" unfolding q2_def r2_def by (rule hi3[OF sur])
  have rr: "r < 0x40" "r2 < 0x40" by (simp_all add: r_def r2_def)
  have b: "utf8_bytes cp = [b1, b2, b3]"
    using assms by (simp add: utf8_bytes_def div_4096 q_def r_def q2_def r2_def b1_def b2_def b3_def)
  have r1: "\<not> b1 < 0x80" "\<not> (0xC2 \<le> b1 \<and> b1 \<le> 0xDF)" "0xE0 \<le> b1" "b1 \<le> 0xEF"
    using q2 unfolding b1_def by linarith+
  have l2: "(if b1 = 0xE0 then 0xA0 else 0x80) \<le> b2"
    using lo unfolding b1_def b2_def by (cases "q2 = 0") simp_all
  have u2: "b2 \<le> (if b1 = 0xED then 0x9F else 0xBF)"
    using hi rr(2) unfolding b1_def b2_def by (cases "q2 = 13") simp_all
  have r3: "0x80 \<le> b3" "b3 \<le> 0xBF" using rr unfolding b3_def by linarith+
  have "utf8_decoder 0 0 0x80 0xBF ([b1, b2, b3] @ rest)
          = ((b1 mod 0x10 * 0x40 + b2 mod 0x40) * 0x40 + b3 mod 0x40) # utf8_decoder 0 0 0x80 0xBF rest"
    using r1 l2 u2 r3 by (simp add: utf8_decoder.simps)
  moreover have "(b1 mod 0x10 * 0x40 + b2 mod 0x40) * 0x40 + b3 mod 0x40 = cp"
    unfolding b1_def b2_def b3_def lead3[OF q2] r_def r2_def cont6
    using cp unfolding r_def r2_def .
  ultimately show ?thesis unfolding b by simp
qed

lemma decoder_four:
  assumes "0x10000 \<le> cp" "cp < 0x110000"
  shows "utf8_decoder 0 0 0x80 0xBF (utf8_bytes cp @ rest) = cp # utf8_decoder 0 0 0x80 0xBF rest"
proof -
  define q where "q = cp div 0x40"
  define r where "r = cp mod 0x40"
  define q2 where "q2 = q div 0x40"
  define r2 where "r2 = q mod 0x40"
  define q3 where "q3 = q2 div 0x40"
  define r3 where "r3 = q2 mod 0x40"
  define b1 where "b1 = 0xF0 + q3"
  define b2 where "b2 = 0x80 + r3"
  define b3 where "b3 = 0x80 + r2"
  define b4 where "b4 = 0x80 + r"
  have cp: "((q3 * 0x40 + r3) * 0x40 + r2) * 0x40 + r = cp"
    by (simp add: q_def r_def q2_def r2_def q3_def r3_def)
  from div64_range[of "0x400" cp "0x4400"] assms have q: "0x400 \<le> q" "q < 0x4400" by (simp_all add: q_def)
  from div64_range[of "0x10" q "0x110"] q have q2: "0x10 \<le> q2" "q2 < 0x110" by (simp_all add: q2_def)
  from q2(2) have q3: "q3 < 5" unfolding q3_def by (rule top4)
  then have q3': "q3 < 8" by simp
  have lo: "q3 = 0 \<Longrightarrow> 0x10 \<le> r3" unfolding q3_def r3_def by (rule lo4[OF q2(1)])
  have hi: "q3 = 4 \<Longrightarrow> r3 < 0x10" unfolding q3_def r3_def by (rule hi4[OF q2(2)])
  have rr: "r < 0x40" "r2 < 0x40" "r3 < 0x40" by (simp_all add: r_def r2_def r3_def)
  have b: "utf8_bytes cp = [b1, b2, b3, b4]"
    using assms by (simp add: utf8_bytes_def div_4096 div_262144 q_def r_def q2_def r2_def q3_def r3_def
        b1_def b2_def b3_def b4_def)
  have r1: "\<not> b1 < 0x80" "\<not> (0xC2 \<le> b1 \<and> b1 \<le> 0xDF)" "\<not> (0xE0 \<le> b1 \<and> b1 \<le> 0xEF)"
      "0xF0 \<le> b1" "b1 \<le> 0xF4"
    using q3 unfolding b1_def by linarith+
  have l2: "(if b1 = 0xF0 then 0x90 else 0x80) \<le> b2"
    using lo unfolding b1_def b2_def by (cases "q3 = 0") simp_all
  have u2: "b2 \<le> (if b1 = 0xF4 then 0x8F else 0xBF)"
    using hi rr(3) unfolding b1_def b2_def by (cases "q3 = 4") simp_all
  have r3: "0x80 \<le> b3" "b3 \<le> 0xBF" using rr unfolding b3_def by linarith+
  have r4: "0x80 \<le> b4" "b4 \<le> 0xBF" using rr unfolding b4_def by linarith+
  have "utf8_decoder 0 0 0x80 0xBF ([b1, b2, b3, b4] @ rest)
          = (((b1 mod 0x8 * 0x40 + b2 mod 0x40) * 0x40 + b3 mod 0x40) * 0x40 + b4 mod 0x40)
              # utf8_decoder 0 0 0x80 0xBF rest"
    using r1 l2 u2 r3 r4 by (simp add: utf8_decoder.simps)
  moreover have "((b1 mod 0x8 * 0x40 + b2 mod 0x40) * 0x40 + b3 mod 0x40) * 0x40 + b4 mod 0x40 = cp"
    unfolding b1_def b2_def b3_def b4_def lead4[OF q3'] r_def r2_def r3_def cont6
    using cp unfolding r_def r2_def r3_def .
  ultimately show ?thesis unfolding b by simp
qed

lemma decoder_bytes:
  assumes "scalar cp"
  shows "utf8_decoder 0 0 0x80 0xBF (utf8_bytes cp @ rest) = cp # utf8_decoder 0 0 0x80 0xBF rest"
proof -
  consider "cp < 0x80" | "0x80 \<le> cp" "cp < 0x800" | "0x800 \<le> cp" "cp < 0x10000" | "0x10000 \<le> cp"
    by arith
  then show ?thesis
  proof cases
    case 1
    then show ?thesis by (rule decoder_one)
  next
    case 2
    then show ?thesis by (rule decoder_two)
  next
    case 3
    with assms show ?thesis by (intro decoder_three) (auto simp add: scalar_def)
  next
    case 4
    with assms show ?thesis by (intro decoder_four) (auto simp add: scalar_def)
  qed
qed

lemma decoder_concat:
  "list_all scalar cps \<Longrightarrow> utf8_decoder 0 0 0x80 0xBF (concat (map utf8_bytes cps)) = cps"
  by (induction cps) (simp_all add: utf8_decoder.simps decoder_bytes)


lemma unat_16: "unat (u :: 16 word) < 0x10000"
  using unsigned_less[of u, where 'a = nat] by simp

lemma lone_scalar: "scalar (lone u)"
  using unat_16[of u] by (auto simp add: lone_def scalar_def high_surrogate_def low_surrogate_def)

lemma pair_value:
  assumes "high_surrogate u" "low_surrogate v"
  shows "0x10000 \<le> 0x10000 + (unat u - 0xD800) * 0x400 + (unat v - 0xDC00)"
    and "0x10000 + (unat u - 0xD800) * 0x400 + (unat v - 0xDC00) < 0x110000"
proof -
  define h where "h = unat u - 0xD800"
  define l where "l = unat v - 0xDC00"
  from assms have "h \<le> 0x3FF" "l \<le> 0x3FF"
    unfolding high_surrogate_def low_surrogate_def h_def l_def by linarith+
  then have "h * 0x400 + l \<le> 0x3FF * 0x400 + 0x3FF"
    by (intro add_mono mult_right_mono) simp_all
  then show "0x10000 + (unat u - 0xD800) * 0x400 + (unat v - 0xDC00) < 0x110000"
    unfolding h_def l_def by simp
  show "0x10000 \<le> 0x10000 + (unat u - 0xD800) * 0x400 + (unat v - 0xDC00)" by simp
qed

lemma code_points_scalar: "list_all scalar (code_points s)"
proof (induction s rule: code_points.induct)
  case 1
  then show ?case by simp
next
  case (2 u)
  then show ?case by (simp add: lone_scalar)
next
  case (3 u v us)
  then show ?case using pair_value[of u v] lone_scalar[of u] by (auto simp add: scalar_def)
qed

lemma scalar_lt: "scalar cp \<Longrightarrow> cp < 0x110000"
  by (auto simp add: scalar_def)

lemma bytes_of_scalars:
  "list_all scalar cps \<Longrightarrow> b \<in> set (concat (map utf8_bytes cps)) \<Longrightarrow> b < 256"
  by (induction cps) (auto dest: utf8_bytes_lt[OF scalar_lt])

lemma of_char_char_of_nat: "(\<And>b. b \<in> set bs \<Longrightarrow> b < 256) \<Longrightarrow> map of_char (map char_of bs) = (bs :: nat list)"
  by (induction bs) simp_all

text \<open>
  Writing and reading back gives the string in which every surrogate without its partner
  has become \<open>U+FFFD\<close>.
\<close>

lemma utf8_decode_encode:
  "utf8_decode (utf8_encode s) = concat (map utf16_units (code_points s))"
proof -
  have "map of_char (utf8_encode s) = concat (map utf8_bytes (code_points s))"
    unfolding utf8_encode_def
    by (rule of_char_char_of_nat) (rule bytes_of_scalars[OF code_points_scalar])
  then show ?thesis
    by (simp add: utf8_decode_def decoder_concat[OF code_points_scalar])
qed

lemma units_lone: "\<not> high_surrogate u \<Longrightarrow> \<not> low_surrogate u \<Longrightarrow> utf16_units (lone u) = [u]"
  using unat_16[of u] by (simp add: lone_def utf16_units_def)

lemma units_pair:
  assumes "high_surrogate u" "low_surrogate v"
  shows "utf16_units (0x10000 + (unat u - 0xD800) * 0x400 + (unat v - 0xDC00)) = [u, v]"
proof -
  define h where "h = unat u - 0xD800"
  define l where "l = unat v - 0xDC00"
  from assms have l: "l < 0x400" and hu: "0xD800 + h = unat u" and lv: "0xDC00 + l = unat v"
    unfolding high_surrogate_def low_surrogate_def h_def l_def by linarith+
  have d: "(h * 0x400 + l) div 0x400 = h" using l by simp
  have m: "(h * 0x400 + l) mod 0x400 = l" using l by simp
  have "utf16_units (0x10000 + h * 0x400 + l)
          = [word_of_nat (0xD800 + (h * 0x400 + l) div 0x400), word_of_nat (0xDC00 + (h * 0x400 + l) mod 0x400)]"
    by (simp add: utf16_units_def)
  also have "\<dots> = [u, v]" unfolding d m hu lv by simp
  finally show ?thesis unfolding h_def l_def .
qed

lemma units_well_formed: "isWellFormed s \<Longrightarrow> concat (map utf16_units (code_points s)) = s"
proof (induction s rule: isWellFormed.induct)
  case 1
  then show ?case by simp
next
  case (2 u)
  then show ?case by (simp add: units_lone)
next
  case (3 u v us)
  show ?case
  proof (cases "high_surrogate u \<and> low_surrogate v")
    case True
    with 3 show ?thesis by (simp add: units_pair)
  next
    case False
    with 3 show ?thesis by (simp add: units_lone)
  qed
qed


lemma units_surrogate:
  "high_surrogate u \<or> low_surrogate u \<Longrightarrow> utf16_units (lone u) = [0xFFFD] \<and> u \<noteq> 0xFFFD"
  by (auto simp add: lone_def utf16_units_def high_surrogate_def low_surrogate_def)

lemma units_not_well_formed: "\<not> isWellFormed s \<Longrightarrow> concat (map utf16_units (code_points s)) \<noteq> s"
proof (induction s rule: isWellFormed.induct)
  case 1
  then show ?case by simp
next
  case (2 u)
  then show ?case using units_surrogate[of u] by auto
next
  case (3 u v us)
  show ?case
  proof (cases "high_surrogate u \<and> low_surrogate v")
    case True
    with 3 show ?thesis by (simp add: units_pair)
  next
    case False
    show ?thesis
    proof (cases "high_surrogate u \<or> low_surrogate u")
      case True
      with False units_surrogate[of u] show ?thesis by auto
    next
      case False
      with 3 \<open>\<not> (high_surrogate u \<and> low_surrogate v)\<close> show ?thesis by (simp add: units_lone)
    qed
  qed
qed

lemma utf8_roundtrip_iff: "utf8_decode (utf8_encode s) = s \<longleftrightarrow> isWellFormed s"
  using units_well_formed units_not_well_formed by (auto simp add: utf8_decode_encode)



subsection \<open>Segments of a path\<close>












subsection \<open>Normal forms\<close>















subsection \<open>Resolution in the file system\<close>




lemma real_dir_prefix: "real_dir fs (k @ ds) \<Longrightarrow> real_dir fs k"
  unfolding real_dir_def by (meson prefix_order.trans prefixI)


lemma real_dir_node: "real_dir fs k \<Longrightarrow> node_at fs k = Some Dir"
  by (cases "k = []") (auto simp add: real_dir_def node_at_def)









subsection \<open>File operations on a rendered path\<close>



















subsection \<open>The two ways a write resolves its path\<close>



subsection \<open>The round trip\<close>





section \<open>The replay buffer of a session\<close>

lemma last_units_length: "length (last_units n s) \<le> n"
  unfolding last_units_def by (rule length_drop_tail)

lemma append_output_last_units:
  "append_output (last_units REPLAY_BUFFER_SIZE xs) c = last_units REPLAY_BUFFER_SIZE (xs @ c)"
  unfolding last_units_def by (rule append_output_suffix)

subsection \<open>Operations that leave every buffer as it is\<close>

lemma keeps_refl: "keeps_buffers m m"
  by (simp add: keeps_buffers_def)

lemma keeps_trans: "keeps_buffers a b \<Longrightarrow> keeps_buffers b c \<Longrightarrow> keeps_buffers a c"
  unfolding keeps_buffers_def by (metis (no_types))

lemma keeps_same: "sessions m' = sessions m \<Longrightarrow> keeps_buffers m' m"
  by (simp add: keeps_buffers_def)

lemma keeps_upd:
  "map_of (sessions m) sid = Some e \<Longrightarrow> sessions m' = AList.update sid e' (sessions m)
     \<Longrightarrow> outputBuffer e' = outputBuffer e \<Longrightarrow> keeps_buffers m' m"
  by (simp add: keeps_buffers_def update_conv')

lemma keeps_del: "sessions m' = AList.delete sid (sessions m) \<Longrightarrow> keeps_buffers m' m"
  by (simp add: keeps_buffers_def delete_conv')

lemma buffer_inv_keeps: "buffer_inv m out \<Longrightarrow> keeps_buffers m' m \<Longrightarrow> buffer_inv m' out"
  unfolding buffer_inv_def keeps_buffers_def by metis

lemma attachClient_keeps: "keeps_buffers (snd (attachClient ev m sid client)) m"
proof (cases "map_of (sessions m) sid")
  case None
  then show ?thesis by (simp add: attachClient_def keeps_refl)
next
  case (Some entry)
  have "sessions (snd (attachClient ev m sid client))
          = AList.update sid (entry\<lparr> cleanupTimeout := None, disconnectedAt := None,
                               clients := set_add client (clients entry),
                               session := (session entry)\<lparr> lastActivityAt := env_now ev \<rparr> \<rparr>) (sessions m)"
    using Some by (simp add: attachClient_def Let_def put_entry_def split: option.splits)
  then show ?thesis by (rule keeps_upd[OF Some]) simp
qed

lemma detachClient_keeps: "keeps_buffers (detachClient cfg ev m sid client) m"
proof (cases "map_of (sessions m) sid")
  case None
  then show ?thesis by (simp add: detachClient_def keeps_refl)
next
  case (Some entry)
  show ?thesis
  proof (cases "remove1 client (clients entry) = []")
    case True
    have "sessions (detachClient cfg ev m sid client)
            = AList.update sid (entry\<lparr> clients := [], disconnectedAt := Some (env_now ev),
                                       cleanupTimeout := Some (timer_seq m) \<rparr>) (sessions m)"
      using Some True by (simp add: detachClient_def Let_def put_entry_def setTimeout_def)
    then show ?thesis by (rule keeps_upd[OF Some]) simp
  next
    case False
    have "sessions (detachClient cfg ev m sid client)
            = AList.update sid (entry\<lparr> clients := remove1 client (clients entry) \<rparr>) (sessions m)"
      using Some False by (simp add: detachClient_def Let_def put_entry_def setTimeout_def)
    then show ?thesis by (rule keeps_upd[OF Some]) simp
  qed
qed

lemma sendInput_keeps: "keeps_buffers (snd (sendInput ev m sid data)) m"
proof (cases "map_of (sessions m) sid")
  case None
  then show ?thesis by (simp add: sendInput_def keeps_refl)
next
  case (Some entry)
  show ?thesis
  proof (cases "pty entry")
    case None
    with Some show ?thesis by (simp add: sendInput_def keeps_refl)
  next
    case (Some p)
    have "sessions (snd (sendInput ev m sid data))
            = AList.update sid (entry\<lparr> session := (session entry)\<lparr> lastActivityAt := env_now ev \<rparr> \<rparr>) (sessions m)"
      using Some \<open>map_of (sessions m) sid = Some entry\<close> by (simp add: sendInput_def put_entry_def)
    then show ?thesis by (rule keeps_upd[OF \<open>map_of (sessions m) sid = Some entry\<close>]) simp
  qed
qed

lemma resize_keeps: "keeps_buffers (snd (resize m sid cols rows)) m"
  by (rule keeps_same) (simp add: resize_def split: option.splits)

lemma renameSession_keeps: "keeps_buffers (snd (renameSession m sid nm)) m"
proof (cases "map_of (sessions m) sid")
  case None
  then show ?thesis by (simp add: renameSession_def keeps_refl)
next
  case (Some entry)
  have "sessions (snd (renameSession m sid nm))
          = AList.update sid (entry\<lparr> session := (session entry)\<lparr> name := nm \<rparr> \<rparr>) (sessions m)"
    using Some by (simp add: renameSession_def put_entry_def)
  then show ?thesis by (rule keeps_upd[OF Some]) simp
qed

lemma pty_onExit_keeps: "keeps_buffers (pty_onExit m p code signal) m"
proof (cases "pty_owner m p")
  case None
  then show ?thesis by (simp add: pty_onExit_def keeps_refl)
next
  case (Some sid)
  show ?thesis
  proof (cases "map_of (sessions m) sid")
    case None
    with Some show ?thesis by (simp add: pty_onExit_def keeps_refl)
  next
    case (Some entry)
    have "sessions (pty_onExit m p code signal)
            = AList.update sid (entry\<lparr> pty := None,
                                    session := (session entry)\<lparr> state := Exited, exitCode := Some code \<rparr> \<rparr>) (sessions m)"
      using Some \<open>pty_owner m p = Some sid\<close> by (simp add: pty_onExit_def Let_def put_entry_def)
    then show ?thesis by (rule keeps_upd[OF Some]) simp
  qed
qed

lemma cleanupSession_keeps: "keeps_buffers (snd (cleanupSession m sid)) m"
  by (rule keeps_del) (rule cleanupSession_sessions)

lemma sweep_keeps: "keeps_buffers (sweep test m ks) m"
proof (induction ks arbitrary: m)
  case Nil
  then show ?case by (simp add: sweep_def keeps_refl)
next
  case (Cons k ks)
  let ?f = "\<lambda>acc sid. case map_of (sessions acc) sid of
                         None \<Rightarrow> acc
                       | Some entry \<Rightarrow> if test entry then snd (cleanupSession acc sid) else acc"
  have "keeps_buffers (?f m k) m"
    by (auto simp add: keeps_refl cleanupSession_keeps split: option.splits)
  moreover have "keeps_buffers (sweep test (?f m k) ks) (?f m k)" by (rule Cons.IH)
  ultimately have "keeps_buffers (sweep test (?f m k) ks) m" by (rule keeps_trans[rotated])
  then show ?case by (simp add: sweep_def)
qed

lemma timer_fire_keeps: "keeps_buffers (timer_fire m h) m"
proof (cases "map_of (timers m) h")
  case None
  then show ?thesis by (simp add: timer_fire_def keeps_refl)
next
  case (Some x)
  obtain due sid where x: "x = (due, sid)" by (cases x)
  have "keeps_buffers (snd (cleanupSession (clearTimeout h m) sid)) (clearTimeout h m)"
    by (rule cleanupSession_keeps)
  moreover have "keeps_buffers (clearTimeout h m) m" by (rule keeps_same) simp
  ultimately have "keeps_buffers (snd (cleanupSession (clearTimeout h m) sid)) m" by (rule keeps_trans)
  then show ?thesis using Some x by (simp add: timer_fire_def)
qed

subsection \<open>Operations that start a buffer afresh or add to it\<close>

lemma spawnClaude_buffer:
  "spawnClaude cfg ev c r e m = (res, e', m') \<Longrightarrow> outputBuffer e' = outputBuffer e \<and> sessions m' = sessions m"
  by (auto simp add: spawnClaude_def Let_def split: spawn_result.splits)

lemma buffer_inv_fresh:
  assumes "buffer_inv m out" "sessions m' = AList.update sid e' (sessions m)" "outputBuffer e' = []"
  shows "buffer_inv m' (out(sid := []))"
  using assms by (simp add: buffer_inv_def update_conv' last_units_def)

lemma createSession_buffer_inv:
  assumes "buffer_inv m out"
  shows "buffer_inv (snd (createSession cfg ev m email repo path nm cols rows))
           (emitted_step cfg m out (EvCreate ev email repo path nm cols rows))"
proof (cases "admits cfg m email")
  case False
  with assms show ?thesis by (simp add: createSession_rejects)
next
  case True
  then obtain res e' m3 where
    sp: "spawnClaude cfg ev cols rows (new_entry (new_session ev m email repo path nm))
             (track_session (getUserRepoKey email repo) (env_id ev)
                (put_entry (env_id ev) (new_entry (new_session ev m email repo path nm)) m)) = (res, e', m3)"
    and cr: "createSession cfg ev m email repo path nm cols rows
               = ((case res of Some e \<Rightarrow> Inl e | None \<Rightarrow> Inr (session e')), put_entry (env_id ev) e' m3)"
    using createSession_shape[of cfg m email ev cols rows repo path nm] by auto
  from spawnClaude_buffer[OF sp] have b: "outputBuffer e' = []"
    and s3: "sessions m3 = AList.update (env_id ev) (new_entry (new_session ev m email repo path nm)) (sessions m)"
    by (simp_all add: new_entry_def track_session_def put_entry_def)
  have "sessions (put_entry (env_id ev) e' m3) = AList.update (env_id ev) e' (sessions m)"
    unfolding sessions_put_entry s3 by (rule update_last)
  from buffer_inv_fresh[OF assms this b] True cr show ?thesis by simp
qed

lemma restartSession_buffer_inv:
  assumes "buffer_inv m out"
  shows "buffer_inv (snd (restartSession cfg ev m sid)) (emitted_step cfg m out (EvRestart ev sid))"
proof (cases "map_of (sessions m) sid")
  case None
  with assms show ?thesis by (simp add: restartSession_def)
next
  case (Some entry)
  define m1 where "m1 = (case pty entry of None \<Rightarrow> m | Some p \<Rightarrow> m\<lparr> killed := killed m @ [p] \<rparr>)"
  obtain res e' m2 where sp: "spawnClaude cfg ev None None (entry\<lparr> pty := None, outputBuffer := [] \<rparr>) m1 = (res, e', m2)"
    by (metis prod_cases3)
  have s1: "sessions m1 = sessions m" by (simp add: m1_def split: option.splits)
  have fin: "snd (restartSession cfg ev m sid) = put_entry sid e' m2"
    using Some sp unfolding restartSession_def Let_def m1_def by (simp split: option.splits)
  from spawnClaude_buffer[OF sp] s1 have b: "outputBuffer e' = []" and s2: "sessions m2 = sessions m"
    by simp_all
  have "sessions (put_entry sid e' m2) = AList.update sid e' (sessions m)"
    by (simp add: sessions_put_entry s2)
  from buffer_inv_fresh[OF assms this b] Some fin show ?thesis by simp
qed

lemma pty_onData_buffer_inv:
  assumes "buffer_inv m out"
  shows "buffer_inv (pty_onData ev m p data) (emitted_step cfg m out (EvPtyData ev p data))"
proof (cases "pty_owner m p")
  case None
  with assms show ?thesis by (simp add: pty_onData_def)
next
  case (Some sid)
  show ?thesis
  proof (cases "map_of (sessions m) sid")
    case None
    with Some assms show ?thesis by (auto simp add: pty_onData_def buffer_inv_def)
  next
    case (Some entry)
    have s: "sessions (pty_onData ev m p data)
            = AList.update sid (entry\<lparr> outputBuffer := append_output (outputBuffer entry) data,
                                       session := (session entry)\<lparr> lastActivityAt := env_now ev \<rparr> \<rparr>) (sessions m)"
      using Some \<open>pty_owner m p = Some sid\<close> by (simp add: pty_onData_def Let_def put_entry_def)
    from assms Some have "outputBuffer entry = last_units REPLAY_BUFFER_SIZE (out sid)"
      by (simp add: buffer_inv_def)
    then have "append_output (outputBuffer entry) data = last_units REPLAY_BUFFER_SIZE (out sid @ data)"
      by (simp add: append_output_last_units)
    with assms \<open>pty_owner m p = Some sid\<close> show ?thesis
      unfolding buffer_inv_def s by (simp add: update_conv')
  qed
qed

subsection \<open>Every reachable state\<close>

lemma step_buffer_inv:
  assumes "buffer_inv m out"
  shows "buffer_inv (step cfg m e) (emitted_step cfg m out e)"
proof (cases e)
  case (EvCreate ev email repo path nm cols rows)
  show ?thesis unfolding EvCreate step.simps by (rule createSession_buffer_inv[OF assms])
next
  case (EvAttach ev sid client)
  show ?thesis unfolding EvAttach step.simps emitted_step.simps
    by (rule buffer_inv_keeps[OF assms attachClient_keeps])
next
  case (EvDetach ev sid client)
  show ?thesis unfolding EvDetach step.simps emitted_step.simps
    by (rule buffer_inv_keeps[OF assms detachClient_keeps])
next
  case (EvInput ev sid data)
  show ?thesis unfolding EvInput step.simps emitted_step.simps
    by (rule buffer_inv_keeps[OF assms sendInput_keeps])
next
  case (EvResize sid cols rows)
  show ?thesis unfolding EvResize step.simps emitted_step.simps
    by (rule buffer_inv_keeps[OF assms resize_keeps])
next
  case (EvRestart ev sid)
  show ?thesis unfolding EvRestart step.simps by (rule restartSession_buffer_inv[OF assms])
next
  case (EvTerminate sid)
  show ?thesis unfolding EvTerminate step.simps emitted_step.simps terminateSession_def
    by (rule buffer_inv_keeps[OF assms cleanupSession_keeps])
next
  case (EvRename sid nm)
  show ?thesis unfolding EvRename step.simps emitted_step.simps
    by (rule buffer_inv_keeps[OF assms renameSession_keeps])
next
  case (EvSweep ev)
  show ?thesis unfolding EvSweep step.simps emitted_step.simps cleanupExpiredSessions_def
    by (rule buffer_inv_keeps[OF assms sweep_keeps])
next
  case (EvPtyData ev p data)
  show ?thesis unfolding EvPtyData step.simps by (rule pty_onData_buffer_inv[OF assms])
next
  case (EvPtyExit p code signal)
  show ?thesis unfolding EvPtyExit step.simps emitted_step.simps
    by (rule buffer_inv_keeps[OF assms pty_onExit_keeps])
next
  case (EvTimer h)
  show ?thesis unfolding EvTimer step.simps emitted_step.simps
    by (rule buffer_inv_keeps[OF assms timer_fire_keeps])
qed

lemma run_emitted_snoc:
  "run_emitted cfg (evs @ [e])
     = (step cfg (fst (run_emitted cfg evs)) e,
        emitted_step cfg (fst (run_emitted cfg evs)) (snd (run_emitted cfg evs)) e)"
  by (simp add: run_emitted_def case_prod_unfold)

lemma run_emitted_fst: "fst (run_emitted cfg evs) = run cfg evs"
  by (induction evs rule: rev_induct) (simp_all add: run_def run_emitted_def case_prod_unfold)

lemma run_buffer_inv: "buffer_inv (run cfg evs) (snd (run_emitted cfg evs))"
proof (induction evs rule: rev_induct)
  case Nil
  then show ?case by (simp add: run_def run_emitted_def buffer_inv_def init_manager_def)
next
  case (snoc e evs)
  from step_buffer_inv[OF snoc.IH, of cfg e] show ?case
    by (simp add: run_emitted_snoc run_emitted_fst run_def)
qed

text \<open>
  The output of a session grows by exactly the chunks its PTYs deliver: appending data events
  of a PTY of the session to a history appends their chunks to the output.
\<close>

lemma emitted_snoc:
  "emitted cfg (evs @ [e]) sid = emitted_step cfg (run cfg evs) (snd (run_emitted cfg evs)) e sid"
  by (simp add: emitted_def run_emitted_snoc run_emitted_fst)

lemma emitted_data:
  "pty_owner (run cfg evs) p = Some sid \<Longrightarrow>
     emitted cfg (evs @ [EvPtyData ev p data]) sid = emitted cfg evs sid @ data"
  unfolding emitted_snoc by (simp add: emitted_def)

text \<open>
  C4, as stated, fails across a restart: after the chunk \<open>abc\<close>, a restart and the chunk
  \<open>x\<close>, the replay buffer of the session is \<open>x\<close>, which is not the end of \<open>abcx\<close>, the
  output emitted so far.
\<close>

theorem restart_empties_replay_buffer:
  "map_option outputBuffer (map_of (sessions (run cfg_default
       [EvCreate (env_at 1000 ''s1'') ''u@x'' ''r/demo'' ''/r/demo'' None None None,
        EvPtyData (env_at 1100 ''-'') 0 ''abc''])) ''s1'') = Some ''abc''
   \<and> map_option outputBuffer (map_of (sessions (run cfg_default
       [EvCreate (env_at 1000 ''s1'') ''u@x'' ''r/demo'' ''/r/demo'' None None None,
        EvPtyData (env_at 1100 ''-'') 0 ''abc'',
        EvRestart (env_at 1200 ''-'') ''s1'',
        EvPtyData (env_at 1300 ''-'') 1 ''x''])) ''s1'') = Some ''x''
   \<and> ''x'' \<noteq> last_units REPLAY_BUFFER_SIZE (''abc'' @ ''x'')"
  by (simp add: run_def manager_defs Let_def show_nat.simps digit_char_def append_output_def
      slice_last_def REPLAY_BUFFER_SIZE_def last_units_def)

text \<open>
  C4, amended. In every state the manager can reach, the replay buffer of every session
  in the map is at most \<open>REPLAY_BUFFER_SIZE\<close> code units long (131072, counted in code
  units of the string, as \<open>length\<close> counts) and is exactly the last \<open>REPLAY_BUFFER_SIZE\<close>
  code units of the output that the PTYs of the session have emitted since the session was
  created or last restarted (all of it while it is shorter): the oldest output is dropped
  first.
\<close>

theorem replay_buffer_of_session:
  assumes "map_of (sessions (run cfg evs)) sid = Some entry"
  shows "length (outputBuffer entry) \<le> REPLAY_BUFFER_SIZE
         \<and> outputBuffer entry = last_units REPLAY_BUFFER_SIZE (emitted cfg evs sid)
         \<and> last_units REPLAY_BUFFER_SIZE (emitted cfg evs sid)
             = drop (length (emitted cfg evs sid) - 131072) (emitted cfg evs sid)"
proof -
  from run_buffer_inv[of cfg evs] assms
  have b: "outputBuffer entry = last_units REPLAY_BUFFER_SIZE (emitted cfg evs sid)"
    by (simp add: buffer_inv_def emitted_def)
  then have "length (outputBuffer entry) \<le> REPLAY_BUFFER_SIZE" by (simp add: last_units_length)
  with b show ?thesis by (simp add: last_units_def REPLAY_BUFFER_SIZE_def)
qed

theorem replay_buffer_of_session_witness:
  "map_of (sessions (run cfg_default
       [EvCreate (env_at 1000 ''s1'') ''u@x'' ''r/demo'' ''/r/demo'' None None None,
        EvPtyData (env_at 1100 ''-'') 0 ''abc'',
        EvPtyData (env_at 1200 ''-'') 0 ''de''])) ''s1''
     = Some \<lparr>session =
               \<lparr>ClaudeSession.id = ''s1'', userEmail = ''u@x'', repoId = ''r/demo'',
                  repoPath = ''/r/demo'', name = ''Session 1'', state = Running, createdAt = 1000,
                  lastActivityAt = 1200, exitCode = None\<rparr>,
             pty = Some 0, outputBuffer = ''abcde'', clients = [], disconnectedAt = None,
             cleanupTimeout = None\<rparr>
   \<and> emitted cfg_default
       [EvCreate (env_at 1000 ''s1'') ''u@x'' ''r/demo'' ''/r/demo'' None None None,
        EvPtyData (env_at 1100 ''-'') 0 ''abc'',
        EvPtyData (env_at 1200 ''-'') 0 ''de''] ''s1'' = ''abcde''
   \<and> last_units REPLAY_BUFFER_SIZE ''abcde'' = ''abcde''"
proof -
  let ?evs = "[EvCreate (env_at 1000 ''s1'') ''u@x'' ''r/demo'' ''/r/demo'' None None None,
        EvPtyData (env_at 1100 ''-'') 0 ''abc'',
        EvPtyData (env_at 1200 ''-'') 0 ''de'']"
  let ?entry = "\<lparr>session =
               \<lparr>ClaudeSession.id = ''s1'', userEmail = ''u@x'', repoId = ''r/demo'',
                  repoPath = ''/r/demo'', name = ''Session 1'', state = Running, createdAt = 1000,
                  lastActivityAt = 1200, exitCode = None\<rparr>,
             pty = Some 0, outputBuffer = ''abcde'', clients = [], disconnectedAt = None,
             cleanupTimeout = None\<rparr>"
  have h: "map_of (sessions (run cfg_default ?evs)) ''s1'' = Some ?entry"
    by (simp add: run_def manager_defs Let_def show_nat.simps digit_char_def append_output_def
        slice_last_def REPLAY_BUFFER_SIZE_def)
  have e: "emitted cfg_default ?evs ''s1'' = ''abcde''"
    by (simp add: emitted_def run_emitted_def admits_def manager_defs Let_def show_nat.simps
        digit_char_def append_output_def slice_last_def REPLAY_BUFFER_SIZE_def)
  from replay_buffer_of_session[OF h] h e show ?thesis by simp
qed

subsection \<open>The exit of a PTY that a restart killed\<close>

text \<open>
  The handlers of a killed PTY stay registered on the entry. When the PTY that
  \<open>restartSession\<close> killed reports its exit, the handler marks the restarted session
  \<open>exited\<close> and drops the handle of the new PTY.
\<close>

lemma exit_of_killed_pty_after_restart:
  "entry_pty (snd (restartSession cfg_default (env_at 5000 ''-'') m_attached ''s1'')) ''s1'' = Some (Some 1)
   \<and> killed (snd (restartSession cfg_default (env_at 5000 ''-'') m_attached ''s1'')) = [0]
   \<and> session_state_of
        (pty_onExit (snd (restartSession cfg_default (env_at 5000 ''-'') m_attached ''s1'')) 0 0 (Some 1))
        ''s1'' = Some Exited
   \<and> entry_pty
        (pty_onExit (snd (restartSession cfg_default (env_at 5000 ''-'') m_attached ''s1'')) 0 0 (Some 1))
        ''s1'' = Some None"
  unfolding m_attached_value
  by (simp add: entry_pty_def session_state_of_def manager_defs Let_def)

end
